theory Spec2Isabelle
  imports Complex_Main "HOL-Library.Sublist" "HOL-Library.Log_Nat"
begin

section \<open>Strings of the host language\<close>

text \<open>
  The loader of \<^verbatim>\<open>src/src/index.ts\<close> (class \<^verbatim>\<open>HISEDataLoader\<close>) works on JavaScript
  strings. A string is modelled as a \<^typ>\<open>string\<close>, each character read as the code unit
  with the same number (U+0000 .. U+00FF). On that range \<^verbatim>\<open>toLowerCase\<close> changes exactly
  the letters A-Z and the Latin-1 capitals U+00C0 .. U+00DE (without the multiplication
  sign U+00D7), \<^verbatim>\<open>trim\<close> removes TAB, LF, VT, FF, CR, SPACE and NBSP, and the regular
  expression atom \<^verbatim>\<open>.\<close> accepts every character but LF and CR.

  A \<^verbatim>\<open>number\<close> is modelled as a rational. The scores of the search are constants
  or one sum of the form \<^verbatim>\<open>0.3 + r * 0.5\<close> and are kept exact; the scores of the related
  items are rounded as the doubles of the source are, see below.
\<close>

definition toLowerChar :: "char \<Rightarrow> char" where
  "toLowerChar c =
     (let n = (of_char c :: nat)
      in if (65 \<le> n \<and> n \<le> 90) \<or> (192 \<le> n \<and> n \<le> 222 \<and> n \<noteq> 215)
         then char_of (n + 32) else c)"

definition toLowerCase :: "string \<Rightarrow> string" where
  "toLowerCase s = map toLowerChar s"

definition isWhiteSpace :: "char \<Rightarrow> bool" where
  "isWhiteSpace c = ((of_char c :: nat) \<in> {9, 10, 11, 12, 13, 32, 160})"

definition isLineTerminator :: "char \<Rightarrow> bool" where
  "isLineTerminator c = ((of_char c :: nat) \<in> {10, 13})"

definition trim :: "string \<Rightarrow> string" where
  "trim s = rev (dropWhile isWhiteSpace (rev (dropWhile isWhiteSpace s)))"


text \<open>\<^verbatim>\<open>s.startsWith(p)\<close>, \<^verbatim>\<open>s.includes(p)\<close> and \<^verbatim>\<open>s.split(d)\<close> for a one-character
  separator \<^verbatim>\<open>d\<close>.\<close>

fun startsWith :: "string \<Rightarrow> string \<Rightarrow> bool" where
  "startsWith s [] = True"
| "startsWith [] (p # ps) = False"
| "startsWith (c # cs) (p # ps) = (c = p \<and> startsWith cs ps)"

fun includesStr :: "string \<Rightarrow> string \<Rightarrow> bool" where
  "includesStr [] p = (p = [])"
| "includesStr (c # cs) p = (startsWith (c # cs) p \<or> includesStr cs p)"

fun splitStr :: "char \<Rightarrow> string \<Rightarrow> string list" where
  "splitStr d [] = [[]]"
| "splitStr d (c # cs) =
     (if c = d then [] # splitStr d cs
      else (c # hd (splitStr d cs)) # tl (splitStr d cs))"

section \<open>Query normalization\<close>

text \<open>
  \<^verbatim>\<open>
  private normalizeQuery(query: string): string {
    return query
      .replace(/\(\)$/, '')      // Strip trailing ()
      .replace(/\(.*\)$/, '')    // Strip (args)
      .toLowerCase()
      .trim();
  }
  \<close>
  Neither regular expression has the \<^verbatim>\<open>m\<close> flag, so \<^verbatim>\<open>$\<close> is the end of the string.
  \<^verbatim>\<open>/\(.*\)$/\<close> matches at the leftmost opening parenthesis from which the rest of the
  string ends in a closing parenthesis with no line terminator in between; the match
  reaches the end of the string, so replacing it cuts the string there.
\<close>

definition stripEmptyParens :: "string \<Rightarrow> string" where
  "stripEmptyParens s =
     (if 2 \<le> length s \<and> drop (length s - 2) s = ''()'' then take (length s - 2) s else s)"

definition argsTail :: "string \<Rightarrow> bool" where
  "argsTail cs = (cs \<noteq> [] \<and> last cs = CHR '')'' \<and> \<not> list_ex isLineTerminator (butlast cs))"

fun stripArgs :: "string \<Rightarrow> string" where
  "stripArgs [] = []"
| "stripArgs (c # cs) = (if c = CHR ''('' \<and> argsTail cs then [] else c # stripArgs cs)"

definition normalizeQuery :: "string \<Rightarrow> string" where
  "normalizeQuery query = trim (toLowerCase (stripArgs (stripEmptyParens query)))"

section \<open>Keyword tokenizer\<close>

definition STOPWORDS :: "string list" where
  "STOPWORDS =
    [''the'', ''a'', ''an'', ''is'', ''are'', ''was'', ''were'', ''be'', ''been'', ''being'',
     ''have'', ''has'', ''had'', ''do'', ''does'', ''did'', ''will'', ''would'', ''could'',
     ''should'', ''may'', ''might'', ''must'', ''can'', ''to'', ''of'', ''in'', ''for'', ''on'',
     ''with'', ''at'', ''by'', ''from'', ''as'', ''into'', ''through'', ''during'', ''before'',
     ''after'', ''above'', ''below'', ''between'', ''under'', ''again'', ''further'', ''then'',
     ''once'', ''here'', ''there'', ''when'', ''where'', ''why'', ''how'', ''all'', ''each'',
     ''few'', ''more'', ''most'', ''other'', ''some'', ''such'', ''no'', ''nor'', ''not'', ''only'',
     ''own'', ''same'', ''so'', ''than'', ''too'', ''very'', ''just'', ''and'', ''but'', ''if'',
     ''or'', ''because'', ''until'', ''while'', ''this'', ''that'', ''these'', ''those'', ''it'',
     ''its'']"

definition isWordChar :: "char \<Rightarrow> bool" where
  "isWordChar c =
     (let n = (of_char c :: nat) in (97 \<le> n \<and> n \<le> 122) \<or> (48 \<le> n \<and> n \<le> 57))"

text \<open>\<^verbatim>\<open>text.match(/[a-z0-9]+/g) || []\<close>: the maximal runs of word characters, left to
  right. The first argument is the run being read.\<close>

fun matchWords :: "string \<Rightarrow> string \<Rightarrow> string list" where
  "matchWords cur [] = (if cur = [] then [] else [cur])"
| "matchWords cur (c # cs) =
     (if isWordChar c then matchWords (cur @ [c]) cs
      else if cur = [] then matchWords [] cs
      else cur # matchWords [] cs)"

text \<open>A \<^verbatim>\<open>Set\<close> that is later iterated is a list without repetition in insertion
  order; \<^verbatim>\<open>add\<close> of a member changes nothing.\<close>

definition setAdd :: "'a list \<Rightarrow> 'a \<Rightarrow> 'a list" where
  "setAdd xs x = (if x \<in> set xs then xs else xs @ [x])"

definition addWord :: "string list \<Rightarrow> string \<Rightarrow> string list" where
  "addWord keywords word =
     (if length word > 2 \<and> word \<notin> set STOPWORDS then setAdd keywords word else keywords)"

definition addText :: "string list \<Rightarrow> string \<Rightarrow> string list" where
  "addText keywords text =
     (if text = [] then keywords
      else foldl addWord keywords (matchWords [] (toLowerCase text)))"

definition extractKeywords :: "string list \<Rightarrow> string list" where
  "extractKeywords texts = foldl addText [] texts"

section \<open>Similarity scorer\<close>

text \<open>
  \<^verbatim>\<open>calculateSimilarity(query, id, name, keywords)\<close>: an early return for equality,
  then a score that each rule raises with \<^verbatim>\<open>Math.max\<close>.
\<close>

definition calculateSimilarity :: "string \<Rightarrow> string \<Rightarrow> string \<Rightarrow> string list \<Rightarrow> rat" where
  "calculateSimilarity query ident name keywords =
     (if ident = query \<or> name = query then 1
      else
        let score = 0;
            score = (if startsWith ident query \<or> startsWith name query
                     then max score (8 / 10) else score);
            score = (if includesStr ident query \<or> includesStr name query
                     then max score (6 / 10) else score);
            queryParts = splitStr CHR ''.'' query;
            idParts = splitStr CHR ''.'' ident;
            score = foldl (\<lambda>sc qp.
                      foldl (\<lambda>sc ip. if includesStr ip qp then max sc (5 / 10) else sc) sc idParts)
                    score queryParts;
            queryWords = extractKeywords [query];
            score = foldl (\<lambda>sc qw. if qw \<in> set keywords then max sc (4 / 10) else sc)
                    score queryWords
        in score)"

text \<open>The scorer as the specification words it: 1 for equality, otherwise the largest
  value among the rules that apply, 0 when none does.\<close>

definition ruleValue :: "bool \<Rightarrow> rat \<Rightarrow> rat" where
  "ruleValue applies v = (if applies then v else 0)"

definition similarityRules :: "string \<Rightarrow> string \<Rightarrow> string \<Rightarrow> string list \<Rightarrow> rat" where
  "similarityRules query ident name keywords =
     (if ident = query \<or> name = query then 1
      else Max {ruleValue (startsWith ident query \<or> startsWith name query) (8 / 10),
                ruleValue (includesStr ident query \<or> includesStr name query) (6 / 10),
                ruleValue (list_ex (\<lambda>qp. list_ex (\<lambda>ip. includesStr ip qp) (splitStr CHR ''.'' ident))
                             (splitStr CHR ''.'' query)) (5 / 10),
                ruleValue (list_ex (\<lambda>qw. qw \<in> set keywords) (extractKeywords [query])) (4 / 10),
                0})"


section \<open>Data model\<close>

text \<open>The interfaces of \<^verbatim>\<open>src/src/types.ts\<close>. Field names carry the record's prefix,
  since the interfaces share the names \<^verbatim>\<open>id\<close> and \<^verbatim>\<open>description\<close>. A \<^verbatim>\<open>number\<close> is
  a rational, an optional field an option.\<close>

datatype SearchDomain = All | Api | Ui | Modules | Snippets

datatype MatchType = Exact | Prefix | Keyword | Fuzzy

datatype Difficulty = Beginner | Intermediate | Advanced

datatype DefaultValue = DefaultString string | DefaultNumber rat | DefaultBoolean bool | DefaultNull

record UIComponentProperty =
  ui_id :: string
  componentType :: string
  propertyName :: string
  propertyType :: string
  ui_defaultValue :: DefaultValue
  ui_description :: string
  possibleValues :: "string list option"
  ui_deprecated :: "bool option"
  ui_deprecatedSince :: "string option"
  ui_replacement :: "string option"

record APIParameter =
  param_name :: string
  param_type :: string
  param_description :: string
  param_optional :: bool
  param_defaultValue :: "string option"

record ScriptingAPIMethod =
  api_id :: string
  namespace :: string
  methodName :: string
  returnType :: string
  parameters :: "APIParameter list"
  api_description :: string
  example :: "string option"
  api_deprecated :: "bool option"
  api_deprecatedSince :: "string option"
  api_replacement :: "string option"

record ModuleParameter =
  mod_id :: string
  moduleType :: string
  parameterId :: string
  parameterName :: string
  mod_min :: rat
  mod_max :: rat
  mod_step :: rat
  mod_defaultValue :: rat
  mod_description :: string

record CodeSnippet =
  snip_id :: string
  title :: string
  snip_description :: string
  category :: string
  tags :: "string list"
  code :: string
  relatedAPIs :: "string list"
  relatedComponents :: "string list"
  difficulty :: Difficulty

record HISEData =
  uiComponentProperties :: "UIComponentProperty list"
  scriptingAPI :: "ScriptingAPIMethod list"
  moduleParameters :: "ModuleParameter list"
  codeSnippets :: "CodeSnippet list"

record SearchResult =
  res_id :: string
  res_domain :: SearchDomain
  res_name :: string
  res_description :: string
  score :: rat
  matchType :: MatchType

text \<open>An element of \<^verbatim>\<open>allItems\<close>.\<close>

record Item =
  item_id :: string
  item_domain :: SearchDomain
  item_name :: string
  item_description :: string
  item_keywords :: "string list"

text \<open>
  The fields of \<^verbatim>\<open>HISEDataLoader\<close>. The four \<^verbatim>\<open>Map\<close> indexes are only read with
  \<^verbatim>\<open>get\<close> and written with \<^verbatim>\<open>set\<close>, so they are maps. Each value of
  \<^verbatim>\<open>keywordIndex\<close> is a \<^verbatim>\<open>Set\<close> that the keyword stage iterates: a list in insertion
  order.
\<close>

record HISEDataLoader =
  data :: "HISEData option"
  propertyIndex :: "string \<rightharpoonup> UIComponentProperty"
  apiMethodIndex :: "string \<rightharpoonup> ScriptingAPIMethod"
  parameterIndex :: "string \<rightharpoonup> ModuleParameter"
  snippetIndex :: "string \<rightharpoonup> CodeSnippet"
  keywordIndex :: "string \<rightharpoonup> string list"
  allItems :: "Item list"
  snippetsLoaded :: bool

definition newLoader :: HISEDataLoader where
  "newLoader = \<lparr>data = None, propertyIndex = Map.empty, apiMethodIndex = Map.empty,
     parameterIndex = Map.empty, snippetIndex = Map.empty, keywordIndex = Map.empty,
     allItems = [], snippetsLoaded = False\<rparr>"

section \<open>Index builder\<close>

definition addKeyword :: "string \<Rightarrow> (string \<rightharpoonup> string list) \<Rightarrow> string \<Rightarrow> (string \<rightharpoonup> string list)" where
  "addKeyword itemId idx keyword =
     idx(keyword \<mapsto> setAdd (case idx keyword of None \<Rightarrow> [] | Some ids \<Rightarrow> ids) itemId)"

definition addToKeywordIndex :: "(string \<rightharpoonup> string list) \<Rightarrow> string \<Rightarrow> string list \<Rightarrow> (string \<rightharpoonup> string list)" where
  "addToKeywordIndex idx itemId keywords = foldl (addKeyword itemId) idx keywords"

definition dotted :: "string \<Rightarrow> string \<Rightarrow> string" where
  "dotted a b = a @ ''.'' @ b"

definition indexUIProperty :: "HISEDataLoader \<Rightarrow> UIComponentProperty \<Rightarrow> HISEDataLoader" where
  "indexUIProperty st prop =
     (let key = toLowerCase (dotted (componentType prop) (propertyName prop));
          keywords = extractKeywords [propertyName prop, ui_description prop, componentType prop]
      in st\<lparr>propertyIndex := (propertyIndex st)(key \<mapsto> prop),
            keywordIndex := addToKeywordIndex (keywordIndex st) key keywords,
            allItems := allItems st @
              [\<lparr>item_id = key, item_domain = Ui,
                item_name = dotted (componentType prop) (propertyName prop),
                item_description = ui_description prop, item_keywords = keywords\<rparr>]\<rparr>)"

definition indexAPIMethod :: "HISEDataLoader \<Rightarrow> ScriptingAPIMethod \<Rightarrow> HISEDataLoader" where
  "indexAPIMethod st method =
     (let key = toLowerCase (dotted (namespace method) (methodName method));
          keywords = extractKeywords [methodName method, api_description method, namespace method]
      in st\<lparr>apiMethodIndex := (apiMethodIndex st)(key \<mapsto> method),
            keywordIndex := addToKeywordIndex (keywordIndex st) key keywords,
            allItems := allItems st @
              [\<lparr>item_id = key, item_domain = Api,
                item_name = dotted (namespace method) (methodName method),
                item_description = api_description method, item_keywords = keywords\<rparr>]\<rparr>)"

definition indexModuleParameter :: "HISEDataLoader \<Rightarrow> ModuleParameter \<Rightarrow> HISEDataLoader" where
  "indexModuleParameter st param =
     (let key = toLowerCase (dotted (moduleType param) (parameterId param));
          keywords = extractKeywords [parameterId param, mod_description param, moduleType param]
      in st\<lparr>parameterIndex := (parameterIndex st)(key \<mapsto> param),
            keywordIndex := addToKeywordIndex (keywordIndex st) key keywords,
            allItems := allItems st @
              [\<lparr>item_id = key, item_domain = Modules,
                item_name = dotted (moduleType param) (parameterId param),
                item_description = mod_description param, item_keywords = keywords\<rparr>]\<rparr>)"

text \<open>\<^verbatim>\<open>buildIndexes()\<close>: nothing without data; otherwise every index is cleared and the
  three non-snippet collections are indexed in turn.\<close>

definition buildIndexes :: "HISEDataLoader \<Rightarrow> HISEDataLoader" where
  "buildIndexes st =
     (case data st of
        None \<Rightarrow> st
      | Some d \<Rightarrow>
          let st = st\<lparr>propertyIndex := Map.empty, apiMethodIndex := Map.empty,
                      parameterIndex := Map.empty, snippetIndex := Map.empty,
                      keywordIndex := Map.empty, allItems := []\<rparr>;
              st = foldl indexUIProperty st (uiComponentProperties d);
              st = foldl indexAPIMethod st (scriptingAPI d);
              st = foldl indexModuleParameter st (moduleParameters d)
          in st)"

definition indexSnippet :: "HISEDataLoader \<Rightarrow> CodeSnippet \<Rightarrow> HISEDataLoader" where
  "indexSnippet st snippet =
     (let keywords = extractKeywords
                       ([title snippet, snip_description snippet, category snippet] @ tags snippet)
      in st\<lparr>snippetIndex := (snippetIndex st)(snip_id snippet \<mapsto> snippet),
            keywordIndex := addToKeywordIndex (keywordIndex st) (snip_id snippet) keywords,
            allItems := allItems st @
              [\<lparr>item_id = snip_id snippet, item_domain = Snippets, item_name = title snippet,
                item_description = snip_description snippet, item_keywords = keywords\<rparr>]\<rparr>)"

text \<open>
  \<^verbatim>\<open>ensureSnippetsLoaded()\<close>. Its first argument is what reading, parsing and
  \<^verbatim>\<open>transformSnippets\<close> yield for \<^verbatim>\<open>snippet_dataset.json\<close>: \<open>None\<close> when one of them
  raises, which the \<^verbatim>\<open>catch\<close> swallows and which leaves the loader as it was.
\<close>

definition ensureSnippetsLoaded :: "CodeSnippet list option \<Rightarrow> HISEDataLoader \<Rightarrow> HISEDataLoader" where
  "ensureSnippetsLoaded snippetFile st =
     (if snippetsLoaded st then st
      else case data st of
        None \<Rightarrow> st
      | Some d \<Rightarrow>
          (case snippetFile of
             None \<Rightarrow> st
           | Some snippets \<Rightarrow>
               let st = st\<lparr>data := Some (d\<lparr>codeSnippets := snippets\<rparr>)\<rparr>;
                   st = foldl indexSnippet st snippets
               in st\<lparr>snippetsLoaded := True\<rparr>))"


section \<open>Search engine\<close>

text \<open>
  What a call can raise. \<^verbatim>\<open>search\<close> calls \<^verbatim>\<open>new RegExp(pattern, 'i')\<close>, which throws a
  \<^verbatim>\<open>SyntaxError\<close> on an invalid pattern; nothing in \<^verbatim>\<open>search\<close> catches it. The
  constructor belongs to the language, not to the repository, so the search is modelled
  for an arbitrary constructor: a function from the pattern source to either an error or
  the \<^verbatim>\<open>test\<close> function of the compiled expression.
  \<open>OutsideFragment\<close> is no outcome of the source: the one concrete constructor defined
  below, \<open>regExpFragment\<close>, answers it for a pattern it does not cover.
\<close>

datatype error = SyntaxError | OutsideFragment | LoadError | ReferenceError

type_synonym matcher = "string \<Rightarrow> bool"

type_synonym regExpCtor = "string \<Rightarrow> error + matcher"

record SearchAcc =
  results :: "SearchResult list"
  seen :: "string set"

text \<open>\<^verbatim>\<open>xs.slice(0, n)\<close> for an integer \<^verbatim>\<open>n\<close>: a negative end counts from the end of the
  array.\<close>

definition slice0 :: "'a list \<Rightarrow> int \<Rightarrow> 'a list" where
  "slice0 xs n = (if n < 0 then take (length xs - nat (- n)) xs else take (nat n) xs)"

text \<open>\<^verbatim>\<open>results.sort((a, b) => b.score - a.score)\<close>: the sort of the language is stable,
  so it is the stable sort by falling score.\<close>

definition sortByScore :: "SearchResult list \<Rightarrow> SearchResult list" where
  "sortByScore rs = sort_key (\<lambda>r. - score r) rs"

definition exactApi :: "HISEDataLoader \<Rightarrow> string \<Rightarrow> SearchDomain \<Rightarrow> SearchAcc \<Rightarrow> SearchAcc" where
  "exactApi st normalized domain acc =
     (if domain = All \<or> domain = Api then
        (case apiMethodIndex st normalized of
           None \<Rightarrow> acc
         | Some exactApi \<Rightarrow>
             acc\<lparr>results := results acc @
                   [\<lparr>res_id = dotted (namespace exactApi) (methodName exactApi), res_domain = Api,
                     res_name = dotted (namespace exactApi) (methodName exactApi),
                     res_description = api_description exactApi, score = 1, matchType = Exact\<rparr>],
                 seen := insert normalized (seen acc)\<rparr>)
      else acc)"

definition exactUi :: "HISEDataLoader \<Rightarrow> string \<Rightarrow> SearchDomain \<Rightarrow> SearchAcc \<Rightarrow> SearchAcc" where
  "exactUi st normalized domain acc =
     (if domain = All \<or> domain = Ui then
        (case propertyIndex st normalized of
           None \<Rightarrow> acc
         | Some exactUi \<Rightarrow>
             acc\<lparr>results := results acc @
                   [\<lparr>res_id = dotted (componentType exactUi) (propertyName exactUi), res_domain = Ui,
                     res_name = dotted (componentType exactUi) (propertyName exactUi),
                     res_description = ui_description exactUi, score = 1, matchType = Exact\<rparr>],
                 seen := insert normalized (seen acc)\<rparr>)
      else acc)"

definition exactMod :: "HISEDataLoader \<Rightarrow> string \<Rightarrow> SearchDomain \<Rightarrow> SearchAcc \<Rightarrow> SearchAcc" where
  "exactMod st normalized domain acc =
     (if domain = All \<or> domain = Modules then
        (case parameterIndex st normalized of
           None \<Rightarrow> acc
         | Some exactMod \<Rightarrow>
             acc\<lparr>results := results acc @
                   [\<lparr>res_id = dotted (moduleType exactMod) (parameterId exactMod), res_domain = Modules,
                     res_name = dotted (moduleType exactMod) (parameterId exactMod),
                     res_description = mod_description exactMod, score = 1, matchType = Exact\<rparr>],
                 seen := insert normalized (seen acc)\<rparr>)
      else acc)"

definition exactSnippet :: "HISEDataLoader \<Rightarrow> string \<Rightarrow> SearchDomain \<Rightarrow> SearchAcc \<Rightarrow> SearchAcc" where
  "exactSnippet st normalized domain acc =
     (if domain = All \<or> domain = Snippets then
        (case snippetIndex st normalized of
           None \<Rightarrow> acc
         | Some exactSnippet \<Rightarrow>
             acc\<lparr>results := results acc @
                   [\<lparr>res_id = snip_id exactSnippet, res_domain = Snippets,
                     res_name = title exactSnippet,
                     res_description = snip_description exactSnippet, score = 1, matchType = Exact\<rparr>],
                 seen := insert normalized (seen acc)\<rparr>)
      else acc)"

definition exactStage :: "HISEDataLoader \<Rightarrow> string \<Rightarrow> SearchDomain \<Rightarrow> SearchAcc" where
  "exactStage st normalized domain =
     exactSnippet st normalized domain
       (exactMod st normalized domain
         (exactUi st normalized domain
           (exactApi st normalized domain \<lparr>results = [], seen = {}\<rparr>)))"

definition pushItem :: "SearchAcc \<Rightarrow> Item \<Rightarrow> rat \<Rightarrow> MatchType \<Rightarrow> SearchAcc" where
  "pushItem acc item sc mt =
     acc\<lparr>results := results acc @
           [\<lparr>res_id = item_id item, res_domain = item_domain item, res_name = item_name item,
             res_description = item_description item, score = sc, matchType = mt\<rparr>],
         seen := insert (item_id item) (seen acc)\<rparr>"

text \<open>\<^verbatim>\<open>normalized.replace(/\*/g, '.*')\<close> and the source handed to the constructor.\<close>

definition replaceStars :: "string \<Rightarrow> string" where
  "replaceStars normalized = concat (map (\<lambda>c. if c = CHR ''*'' then ''.*'' else [c]) normalized)"

definition wildcardSource :: "string \<Rightarrow> string" where
  "wildcardSource normalized = ''^'' @ replaceStars normalized @ ''$''"

fun prefixLoop :: "matcher \<Rightarrow> int \<Rightarrow> Item list \<Rightarrow> SearchAcc \<Rightarrow> SearchAcc" where
  "prefixLoop regex limit [] acc = acc"
| "prefixLoop regex limit (item # items) acc =
     (if item_id item \<in> seen acc then prefixLoop regex limit items acc
      else if regex (item_id item) \<or> regex (toLowerCase (item_name item)) then
        (let acc = pushItem acc item (9 / 10) Prefix
         in if int (length (results acc)) \<ge> limit * 2 then acc
            else prefixLoop regex limit items acc)
      else prefixLoop regex limit items acc)"

definition prefixStage :: "regExpCtor \<Rightarrow> Item list \<Rightarrow> string \<Rightarrow> int \<Rightarrow> SearchAcc \<Rightarrow> error + SearchAcc" where
  "prefixStage RegExp itemsToSearch normalized limit acc =
     (if CHR ''*'' \<in> set normalized then
        (case RegExp (wildcardSource normalized) of
           Inl e \<Rightarrow> Inl e
         | Inr regex \<Rightarrow> Inr (prefixLoop regex limit itemsToSearch acc))
      else Inr acc)"

text \<open>\<^verbatim>\<open>keywordMatches\<close> is a \<^verbatim>\<open>Map\<close> that is iterated: an association list in the
  order of first insertion, where \<^verbatim>\<open>set\<close> of a present key keeps its place.\<close>

fun mapSet :: "('k \<times> 'v) list \<Rightarrow> 'k \<Rightarrow> 'v \<Rightarrow> ('k \<times> 'v) list" where
  "mapSet [] k v = [(k, v)]"
| "mapSet ((k', v') # kvs) k v = (if k' = k then (k, v) # kvs else (k', v') # mapSet kvs k v)"

definition countMatch :: "(string \<times> nat) list \<Rightarrow> string \<Rightarrow> (string \<times> nat) list" where
  "countMatch keywordMatches itemId =
     mapSet keywordMatches itemId
       ((case map_of keywordMatches itemId of None \<Rightarrow> 0 | Some n \<Rightarrow> n) + 1)"

definition countKeyword :: "(string \<rightharpoonup> string list) \<Rightarrow> (string \<times> nat) list \<Rightarrow> string \<Rightarrow> (string \<times> nat) list" where
  "countKeyword idx keywordMatches keyword =
     (case idx keyword of
        None \<Rightarrow> keywordMatches
      | Some matches \<Rightarrow> foldl countMatch keywordMatches matches)"

definition keywordScore :: "nat \<Rightarrow> nat \<Rightarrow> rat" where
  "keywordScore matchCount nKeywords = min (8 / 10) (3 / 10 + (of_nat matchCount / of_nat nKeywords) * (5 / 10))"

fun keywordLoop :: "Item list \<Rightarrow> nat \<Rightarrow> int \<Rightarrow> (string \<times> nat) list \<Rightarrow> SearchAcc \<Rightarrow> SearchAcc" where
  "keywordLoop itemsToSearch nKeywords limit [] acc = acc"
| "keywordLoop itemsToSearch nKeywords limit ((itemId, matchCount) # rest) acc =
     (if itemId \<in> seen acc then keywordLoop itemsToSearch nKeywords limit rest acc
      else case find (\<lambda>i. item_id i = itemId) itemsToSearch of
        None \<Rightarrow> keywordLoop itemsToSearch nKeywords limit rest acc
      | Some item \<Rightarrow>
          (let acc = pushItem acc item (keywordScore matchCount nKeywords) Keyword
           in if int (length (results acc)) \<ge> limit * 3 then acc
              else keywordLoop itemsToSearch nKeywords limit rest acc))"

definition keywordStage :: "HISEDataLoader \<Rightarrow> Item list \<Rightarrow> string \<Rightarrow> int \<Rightarrow> SearchAcc \<Rightarrow> SearchAcc" where
  "keywordStage st itemsToSearch normalized limit acc =
     (let queryKeywords = extractKeywords [normalized];
          keywordMatches = foldl (countKeyword (keywordIndex st)) [] queryKeywords
      in keywordLoop itemsToSearch (length queryKeywords) limit keywordMatches acc)"

fun fuzzyLoop :: "string \<Rightarrow> int \<Rightarrow> Item list \<Rightarrow> SearchAcc \<Rightarrow> SearchAcc" where
  "fuzzyLoop normalized limit [] acc = acc"
| "fuzzyLoop normalized limit (item # items) acc =
     (if item_id item \<in> seen acc then fuzzyLoop normalized limit items acc
      else
        (let sc = calculateSimilarity normalized (item_id item) (toLowerCase (item_name item))
                    (item_keywords item)
         in if sc \<ge> 4 / 10 then
              (let acc = pushItem acc item sc Fuzzy
               in if int (length (results acc)) \<ge> limit * 5 then acc
                  else fuzzyLoop normalized limit items acc)
            else fuzzyLoop normalized limit items acc))"

definition itemsOfDomain :: "HISEDataLoader \<Rightarrow> SearchDomain \<Rightarrow> Item list" where
  "itemsOfDomain st domain =
     (if domain = All then allItems st
      else filter (\<lambda>item. item_domain item = domain) (allItems st))"

text \<open>The body of \<^verbatim>\<open>search\<close> after the snippets have been ensured, with its four
  \<^verbatim>\<open>return\<close> statements.\<close>

definition searchLoaded :: "regExpCtor \<Rightarrow> HISEDataLoader \<Rightarrow> string \<Rightarrow> SearchDomain \<Rightarrow> int \<Rightarrow> error + SearchResult list" where
  "searchLoaded RegExp st query domain limit =
     (let normalized = normalizeQuery query;
          itemsToSearch = itemsOfDomain st domain;
          acc = exactStage st normalized domain
      in if int (length (results acc)) \<ge> limit then Inr (slice0 (results acc) limit)
         else
           (case prefixStage RegExp itemsToSearch normalized limit acc of
              Inl e \<Rightarrow> Inl e
            | Inr acc \<Rightarrow>
                if int (length (results acc)) \<ge> limit
                then Inr (slice0 (sortByScore (results acc)) limit)
                else
                  (let acc = keywordStage st itemsToSearch normalized limit acc
                   in if int (length (results acc)) \<ge> limit
                      then Inr (slice0 (sortByScore (results acc)) limit)
                      else
                        (let acc = fuzzyLoop normalized limit itemsToSearch acc
                         in Inr (slice0 (sortByScore (results acc)) limit)))))"

text \<open>\<^verbatim>\<open>search(query, domain, limit)\<close>: the result (or the error raised) and the loader
  afterwards.\<close>

definition search :: "regExpCtor \<Rightarrow> CodeSnippet list option \<Rightarrow> HISEDataLoader \<Rightarrow> string \<Rightarrow> SearchDomain \<Rightarrow> int
    \<Rightarrow> (error + SearchResult list) \<times> HISEDataLoader" where
  "search RegExp snippetFile st query domain limit =
     (let st = (if domain = All \<or> domain = Snippets then ensureSnippetsLoaded snippetFile st
                else st)
      in (searchLoaded RegExp st query domain limit, st))"

text \<open>The \<^verbatim>\<open>results\<close> array at the \<^verbatim>\<open>return\<close> statement that the search reaches, before
  it is sorted and sliced: the order in which the stages found the results.\<close>

definition collected :: "regExpCtor \<Rightarrow> HISEDataLoader \<Rightarrow> string \<Rightarrow> SearchDomain \<Rightarrow> int \<Rightarrow> error + SearchResult list" where
  "collected RegExp st query domain limit =
     (let normalized = normalizeQuery query;
          itemsToSearch = itemsOfDomain st domain;
          acc = exactStage st normalized domain
      in if int (length (results acc)) \<ge> limit then Inr (results acc)
         else
           (case prefixStage RegExp itemsToSearch normalized limit acc of
              Inl e \<Rightarrow> Inl e
            | Inr acc \<Rightarrow>
                if int (length (results acc)) \<ge> limit then Inr (results acc)
                else
                  (let acc = keywordStage st itemsToSearch normalized limit acc
                   in if int (length (results acc)) \<ge> limit then Inr (results acc)
                      else Inr (results (fuzzyLoop normalized limit itemsToSearch acc)))))"

section \<open>A constructor for the wildcard fragment of the pattern language\<close>

text \<open>
  \<open>regExpFragment\<close> is \<^verbatim>\<open>new RegExp(source, 'i')\<close> on the sources of the form
  \<^verbatim>\<open>^\<close> \<open>t\<^sub>1 \<dots> t\<^sub>n\<close> \<^verbatim>\<open>$\<close>, where each \<open>t\<^sub>i\<close> is \<^verbatim>\<open>.\<close> or a character that
  is no syntax character of the pattern language, optionally followed by \<^verbatim>\<open>*\<close>. Such a
  source is a valid pattern, and its \<^verbatim>\<open>test\<close> accepts the strings that the terms
  match from the first to the last character; letters are compared without case. A
  source whose first other character is an opening bracket that no closing bracket
  follows is an unterminated character class: the constructor throws. Every other source
  lies outside the fragment.
\<close>

datatype atom = AnyChar | Literal char

datatype regTerm = One atom | Star atom

definition isSyntaxCharacter :: "char \<Rightarrow> bool" where
  "isSyntaxCharacter c = (c = CHR 0x5C \<or> c \<in> set ''^$.*+?()[]{}|'')"

definition atomMatches :: "atom \<Rightarrow> char \<Rightarrow> bool" where
  "atomMatches a c =
     (case a of AnyChar \<Rightarrow> \<not> isLineTerminator c | Literal l \<Rightarrow> toLowerChar c = toLowerChar l)"

fun matchTerms :: "regTerm list \<Rightarrow> string \<Rightarrow> bool" where
  "matchTerms [] s = (s = [])"
| "matchTerms (One a # ts) [] = False"
| "matchTerms (One a # ts) (c # cs) = (atomMatches a c \<and> matchTerms ts cs)"
| "matchTerms (Star a # ts) [] = matchTerms ts []"
| "matchTerms (Star a # ts) (c # cs) =
     (matchTerms ts (c # cs) \<or> (atomMatches a c \<and> matchTerms (Star a # ts) cs))"

fun parseTerms :: "string \<Rightarrow> error + regTerm list" where
  "parseTerms [] = Inr []"
| "parseTerms (c # cs) =
     (if c = CHR ''['' \<and> CHR '']'' \<notin> set cs then Inl SyntaxError
      else if isSyntaxCharacter c \<and> c \<noteq> CHR ''.'' then Inl OutsideFragment
      else
        (let a = (if c = CHR ''.'' then AnyChar else Literal c)
         in case cs of
              [] \<Rightarrow> Inr [One a]
            | c' # cs' \<Rightarrow>
                if c' = CHR ''*''
                then (case parseTerms cs' of Inl e \<Rightarrow> Inl e | Inr ts \<Rightarrow> Inr (Star a # ts))
                else (case parseTerms cs of Inl e \<Rightarrow> Inl e | Inr ts \<Rightarrow> Inr (One a # ts))))"

definition regExpFragment :: regExpCtor where
  "regExpFragment source =
     (case source of
        [] \<Rightarrow> Inl OutsideFragment
      | c # rest \<Rightarrow>
          if c = CHR ''^'' \<and> rest \<noteq> [] \<and> last rest = CHR ''$''
          then (case parseTerms (butlast rest) of
                  Inl e \<Rightarrow> Inl e
                | Inr ts \<Rightarrow> Inr (matchTerms ts))
          else Inl OutsideFragment)"


section \<open>Numbers of the host language\<close>

text \<open>
  A \<^verbatim>\<open>number\<close> is an IEEE double; every double is a rational. Where \<^verbatim>\<open>getRelatedItems\<close>
  divides and adds, the result is rounded to the nearest double, ties to the even
  significand, and the order of the scores depends on it (\<^verbatim>\<open>2 / 5 + 0.2\<close> is greater than
  \<^verbatim>\<open>3 / 5\<close>). \<open>toDouble\<close> is that rounding on the normal range of the doubles (no
  overflow, no subnormal result), in which all scores lie: a positive \<open>x\<close> with
  \<open>2\<^sup>e \<le> x < 2\<^sup>e\<^sup>+\<^sup>1\<close> is rounded to a multiple of \<open>2\<^sup>e\<^sup>-\<^sup>5\<^sup>2\<close>.
\<close>

definition pow2 :: "int \<Rightarrow> rat" where
  "pow2 e = (if 0 \<le> e then 2 ^ nat e else 1 / 2 ^ nat (- e))"

definition binaryExponent :: "rat \<Rightarrow> int" where
  "binaryExponent x =
     (let (p, q) = quotient_of x;
          d = bitlen p - bitlen q
      in if pow2 d \<le> x then d else d - 1)"

definition roundHalfEven :: "rat \<Rightarrow> int" where
  "roundHalfEven x =
     (let f = \<lfloor>x\<rfloor>; r = x - of_int f
      in if r < 1 / 2 then f else if r > 1 / 2 then f + 1 else if even f then f else f + 1)"

definition roundPositive :: "rat \<Rightarrow> rat" where
  "roundPositive x =
     (let s = pow2 (52 - binaryExponent x) in of_int (roundHalfEven (x * s)) / s)"

definition toDouble :: "rat \<Rightarrow> rat" where
  "toDouble x = (if x = 0 then 0 else if x < 0 then - roundPositive (- x) else roundPositive x)"

text \<open>\<^verbatim>\<open>a / b\<close> and \<^verbatim>\<open>a + b\<close> on doubles.\<close>

definition doubleDiv :: "rat \<Rightarrow> rat \<Rightarrow> rat" where
  "doubleDiv a b = toDouble (a / b)"

definition doubleAdd :: "rat \<Rightarrow> rat \<Rightarrow> rat" where
  "doubleAdd a b = toDouble (a + b)"

section \<open>Suggestions and related items\<close>

text \<open>\<^verbatim>\<open>findSimilar(query, limit, domain?)\<close>. The domain is optional; the entries pushed
  are \<^verbatim>\<open>{ id: item.name, score }\<close>; the array \<^verbatim>\<open>results\<close> is called \<open>similar\<close> here.\<close>

definition sortPairs :: "(string \<times> rat) list \<Rightarrow> (string \<times> rat) list" where
  "sortPairs rs = sort_key (\<lambda>r. - snd r) rs"

definition skipsDomain :: "SearchDomain option \<Rightarrow> Item \<Rightarrow> bool" where
  "skipsDomain domain item =
     (case domain of None \<Rightarrow> False | Some d \<Rightarrow> d \<noteq> All \<and> item_domain item \<noteq> d)"

definition similarStep :: "string \<Rightarrow> SearchDomain option \<Rightarrow> (string \<times> rat) list \<Rightarrow> Item \<Rightarrow> (string \<times> rat) list" where
  "similarStep normalized domain similar item =
     (if skipsDomain domain item then similar
      else
        (let sc = calculateSimilarity normalized (item_id item) (toLowerCase (item_name item))
                    (item_keywords item)
         in if sc > 3 / 10 then similar @ [(item_name item, sc)] else similar))"

definition findSimilarLoaded :: "HISEDataLoader \<Rightarrow> string \<Rightarrow> int \<Rightarrow> SearchDomain option \<Rightarrow> string list" where
  "findSimilarLoaded st query limit domain =
     (let normalized = normalizeQuery query;
          similar = foldl (similarStep normalized domain) [] (allItems st)
      in map fst (slice0 (sortPairs similar) limit))"

definition findSimilar :: "CodeSnippet list option \<Rightarrow> HISEDataLoader \<Rightarrow> string \<Rightarrow> int \<Rightarrow> SearchDomain option
    \<Rightarrow> string list \<times> HISEDataLoader" where
  "findSimilar snippetFile st query limit domain =
     (let st = (if domain = Some All \<or> domain = Some Snippets
                then ensureSnippetsLoaded snippetFile st else st)
      in (findSimilarLoaded st query limit domain, st))"

text \<open>The suggestion list as the specification words it, for a projection of the catalog
  entry: the entries of the domain whose score exceeds 0.3, by falling score, cut at the
  limit.\<close>

definition similarityOf :: "string \<Rightarrow> Item \<Rightarrow> rat" where
  "similarityOf query item =
     calculateSimilarity (normalizeQuery query) (item_id item) (toLowerCase (item_name item))
       (item_keywords item)"

definition rankedSimilar :: "(Item \<Rightarrow> string) \<Rightarrow> HISEDataLoader \<Rightarrow> string \<Rightarrow> int \<Rightarrow> SearchDomain option \<Rightarrow> string list" where
  "rankedSimilar proj st query limit domain =
     map proj
       (slice0
         (sort_key (\<lambda>item. - similarityOf query item)
           (filter (\<lambda>item. \<not> skipsDomain domain item \<and> similarityOf query item > 3 / 10)
             (allItems st)))
         limit)"

text \<open>\<^verbatim>\<open>getRelatedItems(id, limit)\<close>.\<close>

definition overlap :: "Item \<Rightarrow> Item \<Rightarrow> nat" where
  "overlap item other = length (filter (\<lambda>k. k \<in> set (item_keywords other)) (item_keywords item))"

text \<open>\<^verbatim>\<open>(overlap / Math.max(item.keywords.length, 1)) + domainBonus\<close>, in doubles; the
  literal \<^verbatim>\<open>0.2\<close> is the double nearest to it.\<close>

definition relatedScore :: "Item \<Rightarrow> Item \<Rightarrow> rat" where
  "relatedScore item other =
     (let domainBonus = (if item_domain other = item_domain item then toDouble (2 / 10) else 0)
      in doubleAdd
           (doubleDiv (of_nat (overlap item other)) (of_nat (max (length (item_keywords item)) 1)))
           domainBonus)"

definition relatedStep :: "string \<Rightarrow> Item \<Rightarrow> (string \<times> rat) list \<Rightarrow> Item \<Rightarrow> (string \<times> rat) list" where
  "relatedStep normalized item related other =
     (if item_id other = normalized then related
      else if overlap item other > 0 then related @ [(item_name other, relatedScore item other)]
      else related)"

definition injectRef :: "rat \<Rightarrow> (string \<times> rat) list \<Rightarrow> string \<Rightarrow> (string \<times> rat) list" where
  "injectRef sc related ref =
     (if find (\<lambda>r. toLowerCase (fst r) = toLowerCase ref) related = None
      then related @ [(ref, sc)] else related)"

definition relatedScored :: "HISEDataLoader \<Rightarrow> string \<Rightarrow> Item \<Rightarrow> (string \<times> rat) list" where
  "relatedScored st normalized item =
     (let related = foldl (relatedStep normalized item) [] (allItems st)
      in if item_domain item = Snippets then
           (case snippetIndex st normalized of
              None \<Rightarrow> related
            | Some snippet \<Rightarrow>
                (let related = foldl (injectRef (toDouble (9 / 10))) related (relatedAPIs snippet);
                     related = foldl (injectRef (toDouble (85 / 100))) related
                                 (relatedComponents snippet)
                 in related))
         else related)"

definition getRelatedItems :: "HISEDataLoader \<Rightarrow> string \<Rightarrow> int \<Rightarrow> string list" where
  "getRelatedItems st ident limit =
     (let normalized = normalizeQuery ident
      in case find (\<lambda>i. item_id i = normalized) (allItems st) of
           None \<Rightarrow> []
         | Some item \<Rightarrow> map fst (slice0 (sortPairs (relatedScored st normalized item)) limit))"

text \<open>The catalog entries that the overlap ranking admits for a subject, the references
  that a snippet subject declares, and the references among a list that are new: those
  that equal, without regard to case, neither a name already present nor an earlier new
  one.\<close>

definition overlapping :: "HISEDataLoader \<Rightarrow> string \<Rightarrow> Item \<Rightarrow> Item list" where
  "overlapping st normalized item =
     filter (\<lambda>other. item_id other \<noteq> normalized \<and> overlap item other > 0) (allItems st)"

definition declaredAPIs :: "HISEDataLoader \<Rightarrow> string \<Rightarrow> Item \<Rightarrow> string list" where
  "declaredAPIs st normalized item =
     (if item_domain item = Snippets then
        (case snippetIndex st normalized of
           None \<Rightarrow> []
         | Some snippet \<Rightarrow> relatedAPIs snippet)
      else [])"

definition declaredComponents :: "HISEDataLoader \<Rightarrow> string \<Rightarrow> Item \<Rightarrow> string list" where
  "declaredComponents st normalized item =
     (if item_domain item = Snippets then
        (case snippetIndex st normalized of
           None \<Rightarrow> []
         | Some snippet \<Rightarrow> relatedComponents snippet)
      else [])"

fun newRefs :: "string list \<Rightarrow> string list \<Rightarrow> string list" where
  "newRefs present [] = []"
| "newRefs present (ref # refs) =
     (if toLowerCase ref \<in> set (map toLowerCase present) then newRefs present refs
      else ref # newRefs (present @ [ref]) refs)"

text \<open>The score list that the specification describes for a subject: the overlapping
  entries with their overlap score, then the new related APIs at 0.9, then the new
  related components at 0.85.\<close>

definition rankedByOverlap :: "HISEDataLoader \<Rightarrow> string \<Rightarrow> Item \<Rightarrow> (string \<times> rat) list" where
  "rankedByOverlap st normalized item =
     map (\<lambda>other.
            (item_name other,
             doubleAdd
               (doubleDiv (of_nat (overlap item other)) (of_nat (max (length (item_keywords item)) 1)))
               (if item_domain other = item_domain item then toDouble (2 / 10) else 0)))
         (overlapping st normalized item)"

definition injectedAPIs :: "HISEDataLoader \<Rightarrow> string \<Rightarrow> Item \<Rightarrow> string list" where
  "injectedAPIs st normalized item =
     newRefs (map fst (rankedByOverlap st normalized item)) (declaredAPIs st normalized item)"

definition injectedComponents :: "HISEDataLoader \<Rightarrow> string \<Rightarrow> Item \<Rightarrow> string list" where
  "injectedComponents st normalized item =
     newRefs (map fst (rankedByOverlap st normalized item) @ injectedAPIs st normalized item)
       (declaredComponents st normalized item)"

section \<open>Cache manager and start-up\<close>

text \<open>
  What the loader sees of the file system. \<open>cacheFile\<close> is \<^verbatim>\<open>.cache.json\<close>: absent,
  present but raising in \<^verbatim>\<open>readFileSync\<close>, in \<^verbatim>\<open>JSON.parse\<close> or in the reading of a
  property, or parsed into a snapshot. A stored field is \<open>None\<close> when it is missing or
  has another type than \<^verbatim>\<open>saveCache\<close> writes; a snapshot whose data has another shape
  than \<^verbatim>\<open>HISEData\<close> is not modelled. \<open>statMtime\<close> is \<^verbatim>\<open>fs.statSync(path).mtimeMs\<close>, the
  modification time of a file, \<open>None\<close> when the call raises. \<open>sourceData\<close> is what reading,
  parsing and transforming the three source files yields, \<open>None\<close> when one of them
  raises.
\<close>

record CacheSnapshot =
  version :: "string option"
  uiMtime :: "rat option"
  apiMtime :: "rat option"
  procMtime :: "rat option"
  cache_data :: "HISEData option"

datatype CacheFile = NoFile | Unreadable | Parsed CacheSnapshot

record FileSystem =
  cacheFile :: CacheFile
  statMtime :: "string \<Rightarrow> rat option"
  sourceData :: "(UIComponentProperty list \<times> ScriptingAPIMethod list \<times> ModuleParameter list) option"
  cacheWritable :: bool

text \<open>
  \<^verbatim>\<open>
  private getFileMtime(path: string): number {
    try {
      const fs = require('fs');
      return fs.statSync(path).mtimeMs;
    } catch {
      return 0;
    }
  }
  \<close>
  The file of the loader is an ES module: it imports with \<^verbatim>\<open>import\<close> and reads
  \<^verbatim>\<open>import.meta.url\<close>. In an ES module the identifier \<^verbatim>\<open>require\<close> is not bound, so the
  call raises a \<^verbatim>\<open>ReferenceError\<close> before any file is looked at, and the \<^verbatim>\<open>catch\<close>
  returns 0.
\<close>

definition require :: "string \<Rightarrow> error + unit" where
  "require moduleName = Inl ReferenceError"

definition getFileMtime :: "FileSystem \<Rightarrow> string \<Rightarrow> rat" where
  "getFileMtime fs path =
     (case require ''fs'' of
        Inl e \<Rightarrow> 0
      | Inr fsModule \<Rightarrow> (case statMtime fs path of None \<Rightarrow> 0 | Some t \<Rightarrow> t))"

definition uiPath :: string where "uiPath = ''ui_component_properties.json''"
definition apiPath :: string where "apiPath = ''scripting_api.json''"
definition procPath :: string where "procPath = ''processors.json''"

text \<open>The \<^verbatim>\<open>try\<close> block of \<^verbatim>\<open>loadCache\<close>, and \<^verbatim>\<open>loadCache\<close> with its \<^verbatim>\<open>catch\<close>.\<close>

definition loadCacheTry :: "FileSystem \<Rightarrow> HISEDataLoader \<Rightarrow> error + (bool \<times> HISEDataLoader)" where
  "loadCacheTry fs st =
     (case cacheFile fs of
        NoFile \<Rightarrow> Inr (False, st)
      | Unreadable \<Rightarrow> Inl LoadError
      | Parsed cache \<Rightarrow>
          if version cache \<noteq> Some ''1.1''
             \<or> uiMtime cache \<noteq> Some (getFileMtime fs uiPath)
             \<or> apiMtime cache \<noteq> Some (getFileMtime fs apiPath)
             \<or> procMtime cache \<noteq> Some (getFileMtime fs procPath)
          then Inr (False, st)
          else Inr (True, buildIndexes (st\<lparr>data := cache_data cache, snippetsLoaded := False\<rparr>)))"

definition loadCache :: "FileSystem \<Rightarrow> HISEDataLoader \<Rightarrow> bool \<times> HISEDataLoader" where
  "loadCache fs st = (case loadCacheTry fs st of Inl e \<Rightarrow> (False, st) | Inr r \<Rightarrow> r)"

definition saveCache :: "FileSystem \<Rightarrow> HISEDataLoader \<Rightarrow> FileSystem" where
  "saveCache fs st =
     (if cacheWritable fs then
        fs\<lparr>cacheFile := Parsed
             \<lparr>version = Some ''1.1'',
              uiMtime = Some (getFileMtime fs uiPath),
              apiMtime = Some (getFileMtime fs apiPath),
              procMtime = Some (getFileMtime fs procPath),
              cache_data = data st\<rparr>\<rparr>
      else fs)"

text \<open>The part of \<^verbatim>\<open>loadData\<close> after a cache miss: the full rebuild and the save.\<close>

definition rebuild :: "FileSystem \<Rightarrow> HISEDataLoader \<Rightarrow> error + (HISEDataLoader \<times> FileSystem)" where
  "rebuild fs st =
     (case sourceData fs of
        None \<Rightarrow> Inl LoadError
      | Some (uiProperties, apiMethods, processors) \<Rightarrow>
          (let st = st\<lparr>data := Some \<lparr>uiComponentProperties = uiProperties,
                                      scriptingAPI = apiMethods,
                                      moduleParameters = processors,
                                      codeSnippets = []\<rparr>\<rparr>;
               st = buildIndexes st
           in Inr (st, saveCache fs st)))"

definition loadData :: "FileSystem \<Rightarrow> HISEDataLoader \<Rightarrow> error + (HISEDataLoader \<times> FileSystem)" where
  "loadData fs st =
     (case loadCache fs st of
        (True, st) \<Rightarrow> Inr (st, fs)
      | (False, st) \<Rightarrow> rebuild fs st)"

section \<open>Loaders that a run can reach\<close>

text \<open>A loader is constructed, loads its data, and later loads the snippets on demand
  (\<^verbatim>\<open>search\<close> and \<^verbatim>\<open>findSimilar\<close> change the loader in no other way).\<close>

inductive reachable :: "HISEDataLoader \<Rightarrow> bool" where
  constructed: "reachable newLoader"
| loaded: "reachable st \<Longrightarrow> loadData fs st = Inr (st', fs') \<Longrightarrow> reachable st'"
| snippets: "reachable st \<Longrightarrow> reachable (ensureSnippetsLoaded snippetFile st)"

text \<open>What the index builder establishes: an entry of a non-snippet index is stored under
  the lower-case form of its dotted name, a snippet under its id, and the id of a
  non-snippet catalog entry is in lower case.\<close>

definition indexInv :: "HISEDataLoader \<Rightarrow> bool" where
  "indexInv st =
     ((\<forall>k m. apiMethodIndex st k = Some m \<longrightarrow> toLowerCase (dotted (namespace m) (methodName m)) = k)
      \<and> (\<forall>k p. propertyIndex st k = Some p \<longrightarrow> toLowerCase (dotted (componentType p) (propertyName p)) = k)
      \<and> (\<forall>k p. parameterIndex st k = Some p \<longrightarrow> toLowerCase (dotted (moduleType p) (parameterId p)) = k)
      \<and> (\<forall>k s. snippetIndex st k = Some s \<longrightarrow> snip_id s = k)
      \<and> (\<forall>i \<in> set (allItems st). item_domain i \<noteq> Snippets \<longrightarrow> toLowerCase (item_id i) = item_id i))"


section \<open>Notions used to state the properties\<close>

text \<open>Whether a constructor accepts a pattern source.\<close>

definition compiles :: "regExpCtor \<Rightarrow> string \<Rightarrow> bool" where
  "compiles RegExp source = (case RegExp source of Inl e \<Rightarrow> False | Inr regex \<Rightarrow> True)"

text \<open>The pair that identifies a result, and the accumulator property behind the
  uniqueness of results: every result is recorded in \<^verbatim>\<open>seen\<close>, under its id or, for an
  exact non-snippet hit (whose id keeps the case of the record), under the lower-case
  form of its id.\<close>

definition resKey :: "SearchResult \<Rightarrow> string \<times> SearchDomain" where
  "resKey r = (res_id r, res_domain r)"

definition noRepeat :: "SearchAcc \<Rightarrow> bool" where
  "noRepeat acc =
     (distinct (map resKey (results acc))
      \<and> (\<forall>r\<in>set (results acc). res_id r \<in> seen acc
             \<or> (res_domain r \<noteq> Snippets \<and> toLowerCase (res_id r) \<in> seen acc)))"


text \<open>Whether the search gets as far as building the pattern: the normalized query holds
  a \<^verbatim>\<open>*\<close> and the exact stage has found fewer results than the limit.\<close>

definition patternBuilt :: "HISEDataLoader \<Rightarrow> string \<Rightarrow> SearchDomain \<Rightarrow> int \<Rightarrow> bool" where
  "patternBuilt st normalized domain limit =
     (CHR ''*'' \<in> set normalized
      \<and> int (length (results (exactStage st normalized domain))) < limit)"

text \<open>The exact hit for a key as the specification describes it: the key as id, with the
  name and description of the record stored under the key in the first of the API, UI
  and module index that holds it.\<close>

definition storedExact :: "HISEDataLoader \<Rightarrow> string \<Rightarrow> SearchResult option" where
  "storedExact st k =
     (case apiMethodIndex st k of
        Some m \<Rightarrow>
          Some \<lparr>res_id = k, res_domain = Api, res_name = dotted (namespace m) (methodName m),
                res_description = api_description m, score = 1, matchType = Exact\<rparr>
      | None \<Rightarrow>
          (case propertyIndex st k of
             Some p \<Rightarrow>
               Some \<lparr>res_id = k, res_domain = Ui,
                     res_name = dotted (componentType p) (propertyName p),
                     res_description = ui_description p, score = 1, matchType = Exact\<rparr>
           | None \<Rightarrow>
               (case parameterIndex st k of
                  Some p \<Rightarrow>
                    Some \<lparr>res_id = k, res_domain = Modules,
                          res_name = dotted (moduleType p) (parameterId p),
                          res_description = mod_description p, score = 1, matchType = Exact\<rparr>
                | None \<Rightarrow> None)))"

text \<open>The id of a non-snippet catalog entry is its name in lower case.\<close>

definition nameInv :: "HISEDataLoader \<Rightarrow> bool" where
  "nameInv st =
     (\<forall>i \<in> set (allItems st). item_domain i \<noteq> Snippets \<longrightarrow> item_id i = toLowerCase (item_name i))"

text \<open>A string that starts with \<^verbatim>\<open>synth\<close> and goes on with at least one character.\<close>

definition startsWithSynth :: "string \<Rightarrow> bool" where
  "startsWithSynth s = (startsWith s ''synth'' \<and> length s > 5)"

section \<open>A sample corpus\<close>

definition apiMethod :: "string \<Rightarrow> string \<Rightarrow> string \<Rightarrow> ScriptingAPIMethod" where
  "apiMethod ns m d =
     \<lparr>api_id = m, namespace = ns, methodName = m, returnType = ''var'', parameters = [],
      api_description = d, example = None, api_deprecated = None, api_deprecatedSince = None,
      api_replacement = None\<rparr>"

definition built :: "UIComponentProperty list \<Rightarrow> ScriptingAPIMethod list \<Rightarrow> ModuleParameter list \<Rightarrow> HISEDataLoader" where
  "built uiProperties apiMethods processors =
     buildIndexes (newLoader\<lparr>data := Some \<lparr>uiComponentProperties = uiProperties,
                                            scriptingAPI = apiMethods,
                                            moduleParameters = processors,
                                            codeSnippets = []\<rparr>\<rparr>)"

definition sampleLoader :: HISEDataLoader where
  "sampleLoader =
     built [] [apiMethod ''Engine'' ''getSynth'' [], apiMethod ''Synth'' ''addNoteOn'' ''Adds a note on'']
       []"

definition sampleMtimes :: "string \<Rightarrow> rat option" where
  "sampleMtimes path =
     (if path = uiPath then Some 1000
      else if path = apiPath then Some 2000
      else if path = procPath then Some 3000
      else None)"

text \<open>A file system without a snapshot, the same after a first \<^verbatim>\<open>loadData\<close> has saved
  one, and that one after the API source file has been modified: a method has been added.\<close>

definition sourceFS :: FileSystem where
  "sourceFS =
     \<lparr>cacheFile = NoFile, statMtime = sampleMtimes,
      sourceData = Some ([], [apiMethod ''Synth'' ''addNoteOn'' ''Adds a note on''], []),
      cacheWritable = True\<rparr>"

definition savedFS :: FileSystem where
  "savedFS = (case loadData sourceFS newLoader of Inl e \<Rightarrow> sourceFS | Inr (st, fs) \<Rightarrow> fs)"

definition changedFS :: FileSystem where
  "changedFS =
     savedFS\<lparr>statMtime := sampleMtimes(apiPath := Some 2500),
             sourceData := Some ([], [apiMethod ''Synth'' ''addNoteOn'' ''Adds a note on'',
                                      apiMethod ''Synth'' ''noteOff'' []], [])\<rparr>"

text \<open>A corpus with a method whose name ends in parentheses.\<close>

definition parenLoader :: HISEDataLoader where
  "parenLoader = built [] [apiMethod ''Knob'' ''setValue()'' []] []"

definition uiProperty :: "string \<Rightarrow> string \<Rightarrow> string \<Rightarrow> UIComponentProperty" where
  "uiProperty ct pn d =
     \<lparr>ui_id = dotted ct pn, componentType = ct, propertyName = pn, propertyType = ''unknown'',
      ui_defaultValue = DefaultNull, ui_description = d, possibleValues = None,
      ui_deprecated = None, ui_deprecatedSince = None, ui_replacement = None\<rparr>"

text \<open>A corpus with a method whose name makes an invalid pattern, one with ten methods of
  the namespace \<^verbatim>\<open>Synth\<close>, and one in which a same-domain entry with overlap 2 of 5 and
  an entry of another domain with overlap 3 of 5 meet.\<close>

definition bracketLoader :: HISEDataLoader where
  "bracketLoader = built [] [apiMethod ''Synth'' ''[*'' []] []"

definition synthLoader :: HISEDataLoader where
  "synthLoader =
     built []
       (map (\<lambda>m. apiMethod ''Synth'' m [])
          [''addNoteOn'', ''addNoteOff'', ''playNote'', ''noteOff'', ''setAttribute'',
           ''getAttribute'', ''addController'', ''addPitchFade'', ''addVolumeFade'',
           ''getNumChildSynths''])
       []"

definition roundingLoader :: HISEDataLoader where
  "roundingLoader =
     built [uiProperty ''Knob'' ''range'' ''velocity channel pitch'']
       [apiMethod ''Synth'' ''playNote'' ''velocity channel pitch'',
        apiMethod ''Synth'' ''stop'' ''velocity'']
       []"

definition playNoteItem :: Item where
  "playNoteItem =
     \<lparr>item_id = ''synth.playnote'', item_domain = Api, item_name = ''Synth.playNote'',
      item_description = ''velocity channel pitch'',
      item_keywords = [''playnote'', ''velocity'', ''channel'', ''pitch'', ''synth'']\<rparr>"


text \<open>What \<open>regExpFragment\<close> compiles \<^verbatim>\<open>^synth..*$\<close> to.\<close>

definition synthPattern :: matcher where
  "synthPattern =
     matchTerms [One (Literal CHR ''s''), One (Literal CHR ''y''), One (Literal CHR ''n''),
                 One (Literal CHR ''t''), One (Literal CHR ''h''), One AnyChar, Star AnyChar]"

text \<open>A snippet that declares a related API method and a related component, loaded on
  top of the sample corpus, and two entries of that corpus as the catalog holds them.\<close>

definition knobDemo :: CodeSnippet where
  "knobDemo =
     \<lparr>snip_id = ''knob-demo'', title = ''Knob Demo'', snip_description = [],
      category = ''UI'', tags = [], code = [], relatedAPIs = [''Synth.addNoteOn''],
      relatedComponents = [''ScriptSlider''], difficulty = Beginner\<rparr>"

definition snippetLoader :: HISEDataLoader where
  "snippetLoader = ensureSnippetsLoaded (Some [knobDemo]) sampleLoader"

definition addNoteOnItem :: Item where
  "addNoteOnItem =
     \<lparr>item_id = ''synth.addnoteon'', item_domain = Api, item_name = ''Synth.addNoteOn'',
      item_description = ''Adds a note on'',
      item_keywords = [''addnoteon'', ''adds'', ''note'', ''synth'']\<rparr>"

definition knobDemoItem :: Item where
  "knobDemoItem =
     \<lparr>item_id = ''knob-demo'', item_domain = Snippets, item_name = ''Knob Demo'',
      item_description = [], item_keywords = [''knob'', ''demo'']\<rparr>"


section \<open>Facts about strings\<close>


lemma of_char_lower:
  "(of_char (toLowerChar c) :: nat) =
     (if (65 \<le> (of_char c :: nat) \<and> (of_char c :: nat) \<le> 90)
         \<or> (192 \<le> (of_char c :: nat) \<and> (of_char c :: nat) \<le> 222 \<and> (of_char c :: nat) \<noteq> 215)
      then of_char c + 32 else of_char c)"
  by (auto simp: toLowerChar_def Let_def)

lemma char_eq_code: "(c = d) = ((of_char c :: nat) = of_char d)"
  by simp

lemma lower_idem_c: "toLowerChar (toLowerChar c) = toLowerChar c"
  unfolding char_eq_code[of "toLowerChar (toLowerChar c)"] of_char_lower[of "toLowerChar c"]
  unfolding of_char_lower by auto

lemma lower_idem: "toLowerCase (toLowerCase s) = toLowerCase s"
  by (simp add: toLowerCase_def lower_idem_c)
















section \<open>Query normalization is idempotent when no trailing white space is uncovered\<close>




section \<open>The similarity scorer returns the largest applicable rule value\<close>

lemma fold_max_rule:
  "foldl (\<lambda>sc x. if P x then max sc v else sc) (s::rat) xs = (if list_ex P xs then max s v else s)"
  by (induction xs arbitrary: s) (auto simp: max.assoc)

lemma fold_max_rule2:
  "foldl (\<lambda>sc qp. foldl (\<lambda>sc ip. if Q ip qp then max sc v else sc) sc ips) (s::rat) qps
   = (if list_ex (\<lambda>qp. list_ex (\<lambda>ip. Q ip qp) ips) qps then max s v else s)"
  by (simp add: fold_max_rule)


lemma raise_rule: "0 \<le> s \<Longrightarrow> 0 \<le> v \<Longrightarrow> (if P then max s v else s) = max s (ruleValue P v)"
  by (simp add: ruleValue_def)

lemma ruleValue_nonneg: "0 \<le> v \<Longrightarrow> 0 \<le> ruleValue P v"
  by (simp add: ruleValue_def)

lemma ruleValue_le: "0 \<le> v \<Longrightarrow> v \<le> 1 \<Longrightarrow> ruleValue P v \<le> 1"
  by (simp add: ruleValue_def)

lemma calculateSimilarity_rules:
  "calculateSimilarity query ident name keywords = similarityRules query ident name keywords
   \<and> 0 \<le> calculateSimilarity query ident name keywords
   \<and> calculateSimilarity query ident name keywords \<le> 1"
proof (cases "ident = query \<or> name = query")
  case True
  then show ?thesis by (simp add: calculateSimilarity_def similarityRules_def)
next
  case False
  define r1 where "r1 = ruleValue (startsWith ident query \<or> startsWith name query) (8 / 10)"
  define r2 where "r2 = ruleValue (includesStr ident query \<or> includesStr name query) (6 / 10)"
  define r3 where "r3 = ruleValue (list_ex (\<lambda>qp. list_ex (\<lambda>ip. includesStr ip qp)
                          (splitStr CHR ''.'' ident)) (splitStr CHR ''.'' query)) (5 / 10)"
  define r4 where "r4 = ruleValue (list_ex (\<lambda>qw. qw \<in> set keywords)
                          (extractKeywords [query])) (4 / 10)"
  have nn: "0 \<le> r1" "0 \<le> r2" "0 \<le> r3" "0 \<le> r4"
    by (simp_all add: r1_def r2_def r3_def r4_def ruleValue_nonneg)
  have le: "r1 \<le> 1" "r2 \<le> 1" "r3 \<le> 1" "r4 \<le> 1"
    by (simp_all add: r1_def r2_def r3_def r4_def ruleValue_le)
  have "calculateSimilarity query ident name keywords = max (max (max (max 0 r1) r2) r3) r4"
    using False unfolding calculateSimilarity_def Let_def fold_max_rule2 fold_max_rule
    unfolding r1_def r2_def r3_def r4_def
    by (simp add: raise_rule ruleValue_nonneg max.coboundedI1)
  also have "\<dots> = Max {r1, r2, r3, r4, 0}"
    using nn by (simp add: max.assoc max.commute max.left_commute)
  finally have c: "calculateSimilarity query ident name keywords = Max {r1, r2, r3, r4, 0}" .
  have s: "similarityRules query ident name keywords = Max {r1, r2, r3, r4, 0}"
    using False by (simp add: similarityRules_def r1_def r2_def r3_def r4_def)
  have b0: "0 \<le> Max {r1, r2, r3, r4, 0}" and b1: "Max {r1, r2, r3, r4, 0} \<le> 1"
    using nn le by simp_all
  show ?thesis unfolding c s by (intro conjI refl b0 b1)
qed

lemma calculateSimilarity_range:
  "0 \<le> calculateSimilarity q i n ks \<and> calculateSimilarity q i n ks \<le> 1"
  using calculateSimilarity_rules by blast

text \<open>
  Claim C6. \<^const>\<open>calculateSimilarity\<close> is 1 when the id or the name equals the query;
  otherwise it is the largest of 0.8 (id or name starts with the query), 0.6 (id or name
  contains the query), 0.5 (a dot-separated part of the query is contained in a
  dot-separated part of the id) and 0.4 (an extracted query keyword is among the
  candidate's keywords), over the rules that apply, and 0 when none applies; it is never
  a sum of rule values and always lies between 0 and 1.
\<close>

theorem calculateSimilarity_max_rule:
  "calculateSimilarity query ident name keywords = similarityRules query ident name keywords
   \<and> 0 \<le> calculateSimilarity query ident name keywords
   \<and> calculateSimilarity query ident name keywords \<le> 1"
  by (rule calculateSimilarity_rules)

theorem calculateSimilarity_max_rule_witness:
  "calculateSimilarity ''synth.*'' ''engine.getsynth'' ''engine.getsynth'' [''getsynth'', ''engine'']
     = similarityRules ''synth.*'' ''engine.getsynth'' ''engine.getsynth'' [''getsynth'', ''engine'']
   \<and> 0 \<le> calculateSimilarity ''synth.*'' ''engine.getsynth'' ''engine.getsynth'' [''getsynth'', ''engine'']
   \<and> calculateSimilarity ''synth.*'' ''engine.getsynth'' ''engine.getsynth'' [''getsynth'', ''engine''] \<le> 1"
  by (rule calculateSimilarity_max_rule)


section \<open>Invariants of the search stages\<close>

lemma prefixLoop_inv:
  assumes "P acc"
    and "\<And>acc item. P acc \<Longrightarrow> item \<in> set items \<Longrightarrow> item_id item \<notin> seen acc
           \<Longrightarrow> regex (item_id item) \<or> regex (toLowerCase (item_name item))
           \<Longrightarrow> P (pushItem acc item (9 / 10) Prefix)"
  shows "P (prefixLoop regex limit items acc)"
  using assms
proof (induction items arbitrary: acc)
  case Nil
  then show ?case by simp
next
  case (Cons item items)
  have step: "\<And>acc i. P acc \<Longrightarrow> i \<in> set items \<Longrightarrow> item_id i \<notin> seen acc
           \<Longrightarrow> regex (item_id i) \<or> regex (toLowerCase (item_name i))
           \<Longrightarrow> P (pushItem acc i (9 / 10) Prefix)"
    using Cons.prems(2) by simp
  show ?case
  proof (cases "item_id item \<notin> seen acc \<and> (regex (item_id item) \<or> regex (toLowerCase (item_name item)))")
    case True
    then have p: "P (pushItem acc item (9 / 10) Prefix)"
      using Cons.prems by simp
    show ?thesis using True p Cons.IH[OF p step] by (simp add: Let_def)
  next
    case False
    then show ?thesis using Cons.IH[OF Cons.prems(1) step] by auto
  qed
qed

lemma keywordLoop_inv:
  assumes "P acc"
    and "\<And>acc item itemId matchCount. P acc \<Longrightarrow> (itemId, matchCount) \<in> set km
           \<Longrightarrow> itemId \<notin> seen acc
           \<Longrightarrow> find (\<lambda>i. item_id i = itemId) items = Some item
           \<Longrightarrow> P (pushItem acc item (keywordScore matchCount n) Keyword)"
  shows "P (keywordLoop items n limit km acc)"
  using assms
proof (induction km arbitrary: acc)
  case Nil
  then show ?case by simp
next
  case (Cons e km)
  obtain itemId matchCount where e: "e = (itemId, matchCount)" by (cases e)
  have step: "\<And>acc item itemId matchCount. P acc \<Longrightarrow> (itemId, matchCount) \<in> set km
           \<Longrightarrow> itemId \<notin> seen acc
           \<Longrightarrow> find (\<lambda>i. item_id i = itemId) items = Some item
           \<Longrightarrow> P (pushItem acc item (keywordScore matchCount n) Keyword)"
    by (rule Cons.prems(2)) simp_all
  show ?case
  proof (cases "itemId \<in> seen acc")
    case True
    then show ?thesis using Cons.IH[OF Cons.prems(1) step] by (simp add: e)
  next
    case False
    show ?thesis
    proof (cases "find (\<lambda>i. item_id i = itemId) items")
      case None
      then show ?thesis using False Cons.IH[OF Cons.prems(1) step] by (simp add: e)
    next
      case (Some item)
      have p: "P (pushItem acc item (keywordScore matchCount n) Keyword)"
        using Cons.prems(1) False Some by (intro Cons.prems(2)[of acc itemId matchCount item]) (simp_all add: e)
      show ?thesis using False Some p Cons.IH[OF p step] by (simp add: e Let_def)
    qed
  qed
qed

lemma fuzzyLoop_inv:
  assumes "P acc"
    and "\<And>acc item. P acc \<Longrightarrow> item \<in> set items \<Longrightarrow> item_id item \<notin> seen acc
           \<Longrightarrow> 4 / 10 \<le> calculateSimilarity normalized (item_id item) (toLowerCase (item_name item)) (item_keywords item)
           \<Longrightarrow> P (pushItem acc item (calculateSimilarity normalized (item_id item) (toLowerCase (item_name item)) (item_keywords item)) Fuzzy)"
  shows "P (fuzzyLoop normalized limit items acc)"
  using assms
proof (induction items arbitrary: acc)
  case Nil
  then show ?case by simp
next
  case (Cons item items)
  let ?sc = "calculateSimilarity normalized (item_id item) (toLowerCase (item_name item)) (item_keywords item)"
  have step: "\<And>acc i. P acc \<Longrightarrow> i \<in> set items \<Longrightarrow> item_id i \<notin> seen acc
           \<Longrightarrow> 4 / 10 \<le> calculateSimilarity normalized (item_id i) (toLowerCase (item_name i)) (item_keywords i)
           \<Longrightarrow> P (pushItem acc i (calculateSimilarity normalized (item_id i) (toLowerCase (item_name i)) (item_keywords i)) Fuzzy)"
    using Cons.prems(2) by simp
  show ?case
  proof (cases "item_id item \<notin> seen acc \<and> 4 / 10 \<le> ?sc")
    case True
    then have p: "P (pushItem acc item ?sc Fuzzy)"
      using Cons.prems by simp
    show ?thesis using True p Cons.IH[OF p step] by (simp add: Let_def)
  next
    case False
    then show ?thesis using Cons.IH[OF Cons.prems(1) step] by (auto simp: Let_def)
  qed
qed

lemma collected_inv:
  assumes c: "collected RegExp st query domain limit = Inr rs"
    and e: "P (exactStage st (normalizeQuery query) domain)"
    and p: "\<And>acc item regex. P acc \<Longrightarrow> RegExp (wildcardSource (normalizeQuery query)) = Inr regex
              \<Longrightarrow> item \<in> set (itemsOfDomain st domain) \<Longrightarrow> item_id item \<notin> seen acc
              \<Longrightarrow> regex (item_id item) \<or> regex (toLowerCase (item_name item))
              \<Longrightarrow> P (pushItem acc item (9 / 10) Prefix)"
    and k: "\<And>acc item mc. P acc \<Longrightarrow> item \<in> set (itemsOfDomain st domain)
              \<Longrightarrow> item_id item \<notin> seen acc
              \<Longrightarrow> P (pushItem acc item
                      (keywordScore mc (length (extractKeywords [normalizeQuery query]))) Keyword)"
    and f: "\<And>acc item. P acc \<Longrightarrow> item \<in> set (itemsOfDomain st domain)
              \<Longrightarrow> item_id item \<notin> seen acc
              \<Longrightarrow> 4 / 10 \<le> calculateSimilarity (normalizeQuery query) (item_id item)
                            (toLowerCase (item_name item)) (item_keywords item)
              \<Longrightarrow> P (pushItem acc item
                      (calculateSimilarity (normalizeQuery query) (item_id item)
                         (toLowerCase (item_name item)) (item_keywords item)) Fuzzy)"
  shows "\<exists>acc. rs = results acc \<and> P acc"
proof -
  define n where "n = normalizeQuery query"
  define items where "items = itemsOfDomain st domain"
  define a1 where "a1 = exactStage st n domain"
  note defs = n_def[symmetric] items_def[symmetric] a1_def[symmetric]
  have P1: "P a1" using e by (simp add: a1_def n_def)
  show ?thesis
  proof (cases "int (length (results a1)) \<ge> limit")
    case True
    then have "rs = results a1" using c by (simp add: collected_def Let_def defs)
    with P1 show ?thesis by blast
  next
    case l1: False
    show ?thesis
    proof (cases "prefixStage RegExp items n limit a1")
      case (Inl err)
      then show ?thesis using c l1 by (simp add: collected_def Let_def defs)
    next
      case (Inr a2)
      have P2: "P a2"
      proof (cases "CHR ''*'' \<in> set n")
        case False
        then show ?thesis using Inr P1 by (simp add: prefixStage_def)
      next
        case True
        then obtain regex where r: "RegExp (wildcardSource n) = Inr regex"
          and a2: "a2 = prefixLoop regex limit items a1"
          using Inr by (auto simp: prefixStage_def split: sum.splits)
        show ?thesis unfolding a2
          by (rule prefixLoop_inv[where P = P, OF P1]) (rule p, simp_all add: r[unfolded n_def] items_def)
      qed
      show ?thesis
      proof (cases "int (length (results a2)) \<ge> limit")
        case True
        then have "rs = results a2" using c l1 Inr by (simp add: collected_def Let_def defs)
        with P2 show ?thesis by blast
      next
        case l2: False
        define a3 where "a3 = keywordStage st items n limit a2"
        have P3: "P a3" unfolding a3_def keywordStage_def Let_def
        proof (rule keywordLoop_inv[where P = P, OF P2])
          fix acc item itemId matchCount
          assume "P acc" "itemId \<notin> seen acc" and fi: "find (\<lambda>i. item_id i = itemId) items = Some item"
          from fi have "item \<in> set items" "item_id item = itemId"
            by (auto simp: find_Some_iff)
          then show "P (pushItem acc item (keywordScore matchCount (length (extractKeywords [n]))) Keyword)"
            using \<open>P acc\<close> \<open>itemId \<notin> seen acc\<close> unfolding n_def items_def by (intro k) simp_all
        qed
        show ?thesis
        proof (cases "int (length (results a3)) \<ge> limit")
          case True
          then have "rs = results a3"
            using c l1 l2 Inr by (simp add: collected_def Let_def defs a3_def[symmetric])
          with P3 show ?thesis by blast
        next
          case l3: False
          define a4 where "a4 = fuzzyLoop n limit items a3"
          have P4: "P a4" unfolding a4_def
            by (rule fuzzyLoop_inv[where P = P, OF P3]) (unfold n_def items_def, rule f, simp_all)
          have "rs = results a4"
            using c l1 l2 l3 Inr by (simp add: collected_def Let_def defs a3_def[symmetric] a4_def)
          with P4 show ?thesis by blast
        qed
      qed
    qed
  qed
qed

lemma exact_scores: "\<forall>r\<in>set (results (exactStage st n d)). score r = 1 \<and> matchType r = Exact"
  by (auto simp: exactStage_def exactApi_def exactUi_def exactMod_def exactSnippet_def
        split: option.splits)

lemma sortByScore_const:
  assumes "\<forall>r\<in>set rs. score r = c"
  shows "sortByScore rs = rs"
proof -
  have "map (\<lambda>r. - score r) rs = replicate (length rs) (- c)"
    using assms by (induction rs) auto
  then have "sorted (map (\<lambda>r. - score r) rs)" by (simp add: sorted_replicate)
  then show ?thesis unfolding sortByScore_def by (rule sort_key_id_if_sorted)
qed

lemma search_collected:
  "searchLoaded RegExp st query domain limit =
     (case collected RegExp st query domain limit of
        Inl e \<Rightarrow> Inl e
      | Inr rs \<Rightarrow> Inr (slice0 (sortByScore rs) limit))"
proof -
  have "sortByScore (results (exactStage st (normalizeQuery query) domain))
        = results (exactStage st (normalizeQuery query) domain)"
    using exact_scores by (intro sortByScore_const[where c = 1]) blast
  then show ?thesis
    by (simp add: searchLoaded_def collected_def Let_def split: sum.splits)
qed

lemma keywordScore_range: "0 \<le> keywordScore mc n \<and> keywordScore mc n \<le> 1"
  by (simp add: keywordScore_def min_def)

lemma collected_Inl:
  assumes "collected RegExp st query domain limit = Inl e"
  shows "CHR ''*'' \<in> set (normalizeQuery query) \<and> RegExp (wildcardSource (normalizeQuery query)) = Inl e"
  using assms
  by (auto simp: collected_def Let_def prefixStage_def split: if_splits sum.splits)

lemma slice0_take: "0 \<le> n \<Longrightarrow> slice0 xs n = take (nat n) xs"
  by (simp add: slice0_def)

lemma slice0_is_take: "\<exists>m. slice0 xs n = take m xs"
  by (auto simp: slice0_def)

lemma filter_take_prefix: "prefix (filter P (take n xs)) (filter P xs)"
proof -
  have "filter P xs = filter P (take n xs) @ filter P (drop n xs)"
    by (metis append_take_drop_id filter_append)
  then show ?thesis by (metis prefixI)
qed

lemma sortByScore_sorted: "sorted_wrt (\<lambda>a b. score b \<le> score a) (sortByScore rs)"
proof -
  have "sorted (map (\<lambda>r. - score r) (sortByScore rs))"
    unfolding sortByScore_def by (rule sorted_sort_key)
  then show ?thesis by (simp add: sorted_map)
qed

lemma sortByScore_stable: "filter (\<lambda>r. score r = s) (sortByScore rs) = filter (\<lambda>r. score r = s) rs"
proof -
  have "filter (\<lambda>r. - score r = - s) (sort_key (\<lambda>r. - score r) rs) = filter (\<lambda>r. - score r = - s) rs"
    by (rule sort_key_stable)
  then show ?thesis by (simp add: sortByScore_def)
qed

lemma pushItem_results: "results (pushItem acc item sc mt) = results acc @
           [\<lparr>res_id = item_id item, res_domain = item_domain item, res_name = item_name item,
             res_description = item_description item, score = sc, matchType = mt\<rparr>]"
  by (simp add: pushItem_def)

lemma pushItem_seen: "seen (pushItem acc item sc mt) = insert (item_id item) (seen acc)"
  by (simp add: pushItem_def)

lemma collected_range:
  assumes "collected RegExp st query domain limit = Inr rs"
  shows "\<forall>r\<in>set rs. 0 \<le> score r \<and> score r \<le> 1"
proof -
  define P :: "SearchAcc \<Rightarrow> bool" where "P = (\<lambda>acc. \<forall>r\<in>set (results acc). 0 \<le> score r \<and> score r \<le> 1)"
  have "\<exists>acc. rs = results acc \<and> P acc"
  proof (rule collected_inv[OF assms, where P = P])
    show "P (exactStage st (normalizeQuery query) domain)"
      using exact_scores[of st "normalizeQuery query" domain] by (simp add: P_def)
  qed (auto simp: P_def pushItem_results keywordScore_range calculateSimilarity_range)
  then show ?thesis by (auto simp: P_def)
qed


section \<open>What the index builder establishes\<close>

lemma foldl_preserves:
  assumes "P s" and "\<And>s x. P s \<Longrightarrow> P (f s x)"
  shows "P (foldl f s xs)"
  using assms by (induction xs arbitrary: s) auto

lemma indexInv_ui: "indexInv st \<Longrightarrow> indexInv (indexUIProperty st prop)"
  by (simp add: indexInv_def indexUIProperty_def Let_def lower_idem)

lemma indexInv_api: "indexInv st \<Longrightarrow> indexInv (indexAPIMethod st m)"
  by (simp add: indexInv_def indexAPIMethod_def Let_def lower_idem)

lemma indexInv_mod: "indexInv st \<Longrightarrow> indexInv (indexModuleParameter st p)"
  by (simp add: indexInv_def indexModuleParameter_def Let_def lower_idem)

lemma indexInv_snippet: "indexInv st \<Longrightarrow> indexInv (indexSnippet st s)"
  by (simp add: indexInv_def indexSnippet_def Let_def)

lemma indexInv_fields:
  "indexInv (st\<lparr>data := d\<rparr>) = indexInv st"
  "indexInv (st\<lparr>snippetsLoaded := b\<rparr>) = indexInv st"
  by (simp_all add: indexInv_def)

lemma indexInv_buildIndexes: "indexInv st \<Longrightarrow> indexInv (buildIndexes st)"
proof (cases "data st")
  case None
  then show "indexInv st \<Longrightarrow> ?thesis" by (simp add: buildIndexes_def)
next
  case (Some d)
  have 0: "indexInv (st\<lparr>propertyIndex := Map.empty, apiMethodIndex := Map.empty,
                      parameterIndex := Map.empty, snippetIndex := Map.empty,
                      keywordIndex := Map.empty, allItems := []\<rparr>)"
    by (simp add: indexInv_def)
  show ?thesis unfolding buildIndexes_def Some option.case Let_def
    by (intro foldl_preserves[where P = indexInv] 0 indexInv_ui indexInv_api indexInv_mod)
qed

lemma indexInv_ensure: "indexInv st \<Longrightarrow> indexInv (ensureSnippetsLoaded sf st)"
  unfolding ensureSnippetsLoaded_def Let_def
  by (auto split: option.splits simp: indexInv_fields
        intro!: foldl_preserves[where P = indexInv] indexInv_snippet)

lemma indexInv_loadData:
  assumes "indexInv st" "loadData fs st = Inr (st', fs')"
  shows "indexInv st'"
proof (cases "fst (loadCache fs st)")
  case True
  then have "st' = snd (loadCache fs st)"
    using assms(2) by (auto simp: loadData_def split: prod.splits bool.splits)
  moreover have "indexInv (snd (loadCache fs st))"
    using assms(1)
    by (auto simp: loadCache_def loadCacheTry_def indexInv_fields split: CacheFile.splits sum.splits
          intro!: indexInv_buildIndexes)
  ultimately show ?thesis by simp
next
  case False
  then have m: "loadCache fs st = (False, st)"
    by (auto simp: loadCache_def loadCacheTry_def split: CacheFile.splits sum.splits if_splits)
  then have "rebuild fs st = Inr (st', fs')" using assms(2) by (simp add: loadData_def)
  then show ?thesis using assms(1)
    by (auto simp: rebuild_def Let_def indexInv_fields split: option.splits prod.splits
          intro!: indexInv_buildIndexes)
qed

lemma reachable_indexInv: "reachable st \<Longrightarrow> indexInv st"
proof (induction rule: reachable.induct)
  case constructed
  then show ?case by (simp add: indexInv_def newLoader_def)
next
  case (loaded st fs st' fs')
  then show ?case by (blast intro: indexInv_loadData)
next
  case (snippets st snippetFile)
  then show ?case by (blast intro: indexInv_ensure)
qed


lemma noRepeat_push:
  assumes "noRepeat acc" "item_id item \<notin> seen acc"
    and "item_domain item \<noteq> Snippets \<longrightarrow> toLowerCase (item_id item) = item_id item"
  shows "noRepeat (pushItem acc item sc mt)"
proof -
  have "(item_id item, item_domain item) \<notin> resKey ` set (results acc)"
  proof
    assume "(item_id item, item_domain item) \<in> resKey ` set (results acc)"
    then obtain r where r: "r \<in> set (results acc)" "res_id r = item_id item" "res_domain r = item_domain item"
      by (auto simp: resKey_def)
    then have "res_id r \<in> seen acc \<or> (res_domain r \<noteq> Snippets \<and> toLowerCase (res_id r) \<in> seen acc)"
      using assms(1) r(1) unfolding noRepeat_def by blast
    then show False using r assms(2,3) by auto
  qed
  then show ?thesis using assms(1)
    by (auto simp: noRepeat_def pushItem_results pushItem_seen resKey_def)
qed

lemma noRepeat_exact:
  assumes "indexInv st"
  shows "noRepeat (exactStage st n d)"
  using assms
  unfolding noRepeat_def exactStage_def exactApi_def exactUi_def exactMod_def exactSnippet_def
    indexInv_def resKey_def
  by (auto split: option.splits)

lemma itemsOfDomain_subset: "set (itemsOfDomain st d) \<subseteq> set (allItems st)"
  by (auto simp: itemsOfDomain_def)

lemma collected_noRepeat:
  assumes "indexInv st" "collected RegExp st query domain limit = Inr rs"
  shows "distinct (map resKey rs)"
proof -
  have low: "\<And>item. item \<in> set (itemsOfDomain st domain) \<Longrightarrow>
          item_domain item \<noteq> Snippets \<longrightarrow> toLowerCase (item_id item) = item_id item"
    using assms(1) itemsOfDomain_subset[of st domain] by (auto simp: indexInv_def)
  have "\<exists>acc. rs = results acc \<and> noRepeat acc"
  proof (rule collected_inv[OF assms(2), where P = noRepeat])
    show "noRepeat (exactStage st (normalizeQuery query) domain)"
      by (rule noRepeat_exact[OF assms(1)])
  qed (rule noRepeat_push, assumption, assumption, rule low, assumption)+
  then show ?thesis by (auto simp: noRepeat_def)
qed

lemma distinct_map_sort_take:
  assumes "distinct (map f xs)"
  shows "distinct (map f (take m (sort_key g xs)))"
proof -
  have "distinct (map f (sort_key g xs))"
    using assms by (simp add: distinct_map)
  then show ?thesis by (simp add: take_map[symmetric] del: take_map)
qed


lemma reachable_built: "reachable (built uiProperties apiMethods processors)"
proof -
  define fs where "fs = \<lparr>cacheFile = NoFile, statMtime = (\<lambda>p. None),
                          sourceData = Some (uiProperties, apiMethods, processors),
                          cacheWritable = False\<rparr>"
  have "loadData fs newLoader = Inr (built uiProperties apiMethods processors, fs)"
    by (simp add: loadData_def loadCache_def loadCacheTry_def rebuild_def saveCache_def
          built_def fs_def)
  with reachable.constructed show ?thesis by (rule reachable.loaded)
qed

lemma compiles_Inr: "compiles RegExp source \<Longrightarrow> \<exists>regex. RegExp source = Inr regex"
  by (cases "RegExp source") (simp_all add: compiles_def)

section \<open>No result is returned twice\<close>

text \<open>
  Claim C10. For every loader that a run can reach, every query, domain and limit, the
  list that \<^verbatim>\<open>search\<close> returns holds no two results with the same id and domain.
\<close>

theorem search_no_duplicates:
  assumes "reachable st"
    and "fst (search RegExp snippetFile st query domain limit) = Inr rs"
  shows "distinct (map (\<lambda>r. (res_id r, res_domain r)) rs)"
proof -
  define st' where "st' = snd (search RegExp snippetFile st query domain limit)"
  have i: "indexInv st'"
    using reachable_indexInv[OF assms(1)]
    by (auto simp: st'_def search_def Let_def intro: indexInv_ensure)
  have f: "searchLoaded RegExp st' query domain limit = Inr rs"
    using assms(2) by (simp add: st'_def search_def Let_def)
  then obtain acc where c: "collected RegExp st' query domain limit = Inr acc"
    and rs: "rs = slice0 (sortByScore acc) limit"
    by (auto simp: search_collected split: sum.splits)
  obtain m where "rs = take m (sortByScore acc)" using rs slice0_is_take by metis
  then have "distinct (map resKey rs)"
    using collected_noRepeat[OF i c] by (simp add: sortByScore_def distinct_map_sort_take)
  then show ?thesis by (simp add: resKey_def[abs_def])
qed

theorem search_no_duplicates_witness:
  "reachable sampleLoader
   \<and> fst (search regExpFragment None sampleLoader ''Synth.*'' Api 10) =
       Inr [\<lparr>res_id = ''synth.addnoteon'', res_domain = Api, res_name = ''Synth.addNoteOn'',
              res_description = ''Adds a note on'', score = 9 / 10, matchType = Prefix\<rparr>,
            \<lparr>res_id = ''engine.getsynth'', res_domain = Api, res_name = ''Engine.getSynth'',
              res_description = [], score = 1 / 2, matchType = Fuzzy\<rparr>]
   \<and> distinct (map (\<lambda>r. (res_id r, res_domain r))
         [\<lparr>res_id = ''synth.addnoteon'', res_domain = Api, res_name = ''Synth.addNoteOn'',
              res_description = ''Adds a note on'', score = 9 / 10, matchType = Prefix\<rparr>,
            \<lparr>res_id = ''engine.getsynth'', res_domain = Api, res_name = ''Engine.getSynth'',
              res_description = [], score = 1 / 2, matchType = Fuzzy\<rparr>])"
proof -
  have h1: "reachable sampleLoader" unfolding sampleLoader_def by (rule reachable_built)
  have h2: "fst (search regExpFragment None sampleLoader ''Synth.*'' Api 10) =
       Inr [\<lparr>res_id = ''synth.addnoteon'', res_domain = Api, res_name = ''Synth.addNoteOn'',
              res_description = ''Adds a note on'', score = 9 / 10, matchType = Prefix\<rparr>,
            \<lparr>res_id = ''engine.getsynth'', res_domain = Api, res_name = ''Engine.getSynth'',
              res_description = [], score = 1 / 2, matchType = Fuzzy\<rparr>]"
    by code_simp
  from h1 h2 search_no_duplicates [OF h1 h2] show ?thesis by blast
qed

section \<open>An invalid wildcard pattern makes the search raise\<close>

text \<open>
  Claim C3, as amended. The pattern handed to the constructor is the normalized query
  with each \<^verbatim>\<open>*\<close> replaced by \<^verbatim>\<open>.*\<close>, between \<^verbatim>\<open>^\<close> and \<^verbatim>\<open>$\<close>; no other character
  is escaped. For every query whose normalized form contains \<^verbatim>\<open>*\<close> and whose pattern
  the constructor rejects, \<^verbatim>\<open>search\<close> raises the constructor's error whenever the exact
  stage has found fewer than \<open>limit\<close> results (there is no fallback to a query without
  wildcard), and returns the exact results otherwise, since then it returns before the
  pattern is built.
\<close>

theorem search_raises_on_invalid_pattern:
  assumes "CHR ''*'' \<in> set (normalizeQuery query)"
    and "RegExp (wildcardSource (normalizeQuery query)) = Inl e"
  shows "(int (length (results (exactStage (snd (search RegExp snippetFile st query domain limit))
                                  (normalizeQuery query) domain))) < limit
            \<longrightarrow> fst (search RegExp snippetFile st query domain limit) = Inl e)
         \<and> (limit \<le> int (length (results (exactStage (snd (search RegExp snippetFile st query domain limit))
                                  (normalizeQuery query) domain)))
            \<longrightarrow> fst (search RegExp snippetFile st query domain limit)
                = Inr (slice0 (results (exactStage (snd (search RegExp snippetFile st query domain limit))
                                  (normalizeQuery query) domain)) limit))
         \<and> wildcardSource (normalizeQuery query)
             = ''^'' @ concat (map (\<lambda>c. if c = CHR ''*'' then ''.*'' else [c]) (normalizeQuery query)) @ ''$''"
  using assms
  by (simp add: search_def searchLoaded_def prefixStage_def Let_def wildcardSource_def replaceStars_def)

theorem search_raises_on_invalid_pattern_witness:
  "CHR ''*'' \<in> set (normalizeQuery ''Synth.[*'')
   \<and> regExpFragment (wildcardSource (normalizeQuery ''Synth.[*'')) = Inl SyntaxError
   \<and> int (length (results (exactStage (snd (search regExpFragment None sampleLoader ''Synth.[*'' Api 5))
                                  (normalizeQuery ''Synth.[*'') Api))) < 5
   \<and> fst (search regExpFragment None sampleLoader ''Synth.[*'' Api 5) = Inl SyntaxError"
proof -
  have h1: "CHR ''*'' \<in> set (normalizeQuery ''Synth.[*'')" by code_simp
  have "case regExpFragment (wildcardSource (normalizeQuery ''Synth.[*'')) of
          Inl e \<Rightarrow> e = SyntaxError | Inr regex \<Rightarrow> False" by code_simp
  then have h2: "regExpFragment (wildcardSource (normalizeQuery ''Synth.[*'')) = Inl SyntaxError"
    by (simp split: sum.splits)
  have h3: "int (length (results (exactStage (snd (search regExpFragment None sampleLoader ''Synth.[*'' Api 5))
                                  (normalizeQuery ''Synth.[*'') Api))) < 5" by code_simp
  from h1 h2 h3
    search_raises_on_invalid_pattern
      [where query = "''Synth.[*''" and RegExp = regExpFragment and e = SyntaxError
          and snippetFile = None and st = sampleLoader and domain = Api and limit = 5]
  show ?thesis by blast
qed

theorem search_does_not_degrade:
  "wildcardSource (normalizeQuery ''Synth.[*'') = ''^synth.[.*$''
   \<and> fst (search regExpFragment None sampleLoader ''Synth.[*'' Api 5) = Inl SyntaxError"
  by code_simp

section \<open>Suggestions are the ranked names of the similar entries\<close>

lemma insort_key_map:
  "insort_key f (g x) (map g ys) = map g (insort_key (\<lambda>a. f (g a)) x ys)"
  by (induction ys) auto

lemma sort_key_map: "sort_key f (map g xs) = map g (sort_key (\<lambda>a. f (g a)) xs)"
  by (induction xs) (simp_all add: insort_key_map)

lemma slice0_map: "slice0 (map g xs) n = map g (slice0 xs n)"
  by (simp add: slice0_def take_map)

lemma similar_fold:
  "foldl (similarStep (normalizeQuery query) domain) acc items =
     acc @ map (\<lambda>item. (item_name item, similarityOf query item))
             (filter (\<lambda>item. \<not> skipsDomain domain item \<and> similarityOf query item > 3 / 10) items)"
  by (induction items arbitrary: acc) (simp_all add: similarStep_def similarityOf_def Let_def)

lemma findSimilarLoaded_ranked:
  "findSimilarLoaded st query limit domain = rankedSimilar item_name st query limit domain"
  by (simp add: findSimilarLoaded_def rankedSimilar_def similar_fold sortPairs_def
        sort_key_map slice0_map Let_def comp_def)

text \<open>
  Claim C7, as amended. For every query, limit and domain, \<^verbatim>\<open>findSimilar\<close> returns the
  display names (not the canonical ids) of the catalog entries, restricted to the
  domain when one is given and is not \<^verbatim>\<open>all\<close>, whose score against the normalized query
  under \<^verbatim>\<open>calculateSimilarity\<close> exceeds 0.3, by falling score, cut at the limit; the
  catalog is the one after the snippets have been ensured for the domains \<^verbatim>\<open>all\<close> and
  \<^verbatim>\<open>snippets\<close>.
\<close>

theorem findSimilar_ranked_names:
  "fst (findSimilar snippetFile st query limit domain)
     = rankedSimilar item_name (snd (findSimilar snippetFile st query limit domain)) query limit domain
   \<and> snd (findSimilar snippetFile st query limit domain)
     = (if domain = Some All \<or> domain = Some Snippets then ensureSnippetsLoaded snippetFile st else st)"
  by (simp add: findSimilar_def Let_def findSimilarLoaded_ranked)

theorem findSimilar_ranked_names_witness:
  "fst (findSimilar None sampleLoader ''synth.addnoteon'' 3 (Some Api))
     = rankedSimilar item_name (snd (findSimilar None sampleLoader ''synth.addnoteon'' 3 (Some Api)))
         ''synth.addnoteon'' 3 (Some Api)
   \<and> snd (findSimilar None sampleLoader ''synth.addnoteon'' 3 (Some Api))
     = (if Some Api = Some All \<or> Some Api = Some Snippets
        then ensureSnippetsLoaded None sampleLoader else sampleLoader)"
  by (rule findSimilar_ranked_names)

theorem findSimilar_returns_names_not_ids:
  "fst (findSimilar None sampleLoader ''synth.addnoteon'' 3 (Some Api))
     = [''Synth.addNoteOn'', ''Engine.getSynth'']
   \<and> rankedSimilar item_id sampleLoader ''synth.addnoteon'' 3 (Some Api)
     = [''synth.addnoteon'', ''engine.getsynth'']"
  by code_simp

section \<open>When the search builds its pattern\<close>

lemma collected_Inl_built:
  assumes "collected RegExp st query domain limit = Inl e"
  shows "patternBuilt st (normalizeQuery query) domain limit
         \<and> RegExp (wildcardSource (normalizeQuery query)) = Inl e"
  using assms
  by (auto simp: collected_def Let_def prefixStage_def patternBuilt_def split: if_splits sum.splits)

section \<open>The contract of the search\<close>

lemma searchLoaded_raises:
  assumes "patternBuilt st (normalizeQuery query) domain limit"
    and "RegExp (wildcardSource (normalizeQuery query)) = Inl e"
  shows "searchLoaded RegExp st query domain limit = Inl e"
  using assms by (simp add: searchLoaded_def prefixStage_def Let_def patternBuilt_def)

lemma not_compiles_Inl: "\<not> compiles RegExp source \<Longrightarrow> \<exists>e. RegExp source = Inl e"
  by (cases "RegExp source") (simp_all add: compiles_def)

text \<open>
  Claim C1, as amended. For every query, every domain and every limit of at least 1,
  \<^verbatim>\<open>search\<close> either raises or returns a list, and the pattern decides which. It raises,
  with the error of the constructor, exactly when it gets as far as building the
  pattern (the normalized query holds a \<^verbatim>\<open>*\<close> and the exact stage has found fewer than
  \<open>limit\<close> results) and the constructor rejects the pattern. In every other case it
  returns a list of at most \<open>limit\<close> results, sorted by non-increasing score, in which
  every score lies in [0,1], every match type is one of exact, prefix, keyword and
  fuzzy, and results of equal score keep the order in which the stages collected them.
\<close>

theorem search_contract:
  assumes "1 \<le> limit"
  shows "(patternBuilt (snd (search RegExp snippetFile st query domain limit))
              (normalizeQuery query) domain limit
            \<and> \<not> compiles RegExp (wildcardSource (normalizeQuery query))
            \<longrightarrow> (\<exists>e. RegExp (wildcardSource (normalizeQuery query)) = Inl e
                   \<and> fst (search RegExp snippetFile st query domain limit) = Inl e))
         \<and> (\<not> (patternBuilt (snd (search RegExp snippetFile st query domain limit))
                 (normalizeQuery query) domain limit
               \<and> \<not> compiles RegExp (wildcardSource (normalizeQuery query)))
            \<longrightarrow> (\<exists>rs acc. fst (search RegExp snippetFile st query domain limit) = Inr rs
                   \<and> collected RegExp (snd (search RegExp snippetFile st query domain limit))
                         query domain limit = Inr acc
                   \<and> int (length rs) \<le> limit
                   \<and> sorted_wrt (\<lambda>a b. score b \<le> score a) rs
                   \<and> (\<forall>r\<in>set rs. 0 \<le> score r \<and> score r \<le> 1
                          \<and> matchType r \<in> {Exact, Prefix, Keyword, Fuzzy})
                   \<and> (\<forall>s. prefix (filter (\<lambda>r. score r = s) rs)
                                 (filter (\<lambda>r. score r = s) acc))))"
proof -
  define st' where "st' = snd (search RegExp snippetFile st query domain limit)"
  define n where "n = normalizeQuery query"
  have f: "fst (search RegExp snippetFile st query domain limit) = searchLoaded RegExp st' query domain limit"
    by (simp add: st'_def search_def Let_def)
  have l: "patternBuilt st' n domain limit \<and> \<not> compiles RegExp (wildcardSource n)
            \<longrightarrow> (\<exists>e. RegExp (wildcardSource n) = Inl e
                   \<and> fst (search RegExp snippetFile st query domain limit) = Inl e)"
  proof
    assume a: "patternBuilt st' n domain limit \<and> \<not> compiles RegExp (wildcardSource n)"
    then obtain e where e: "RegExp (wildcardSource n) = Inl e" using not_compiles_Inl by blast
    with a have "searchLoaded RegExp st' query domain limit = Inl e"
      unfolding n_def by (intro searchLoaded_raises) simp_all
    with e show "\<exists>e. RegExp (wildcardSource n) = Inl e
                   \<and> fst (search RegExp snippetFile st query domain limit) = Inl e"
      unfolding f by blast
  qed
  have r: "\<not> (patternBuilt st' n domain limit \<and> \<not> compiles RegExp (wildcardSource n))
            \<longrightarrow> (\<exists>rs acc. fst (search RegExp snippetFile st query domain limit) = Inr rs
                   \<and> collected RegExp st' query domain limit = Inr acc
                   \<and> int (length rs) \<le> limit
                   \<and> sorted_wrt (\<lambda>a b. score b \<le> score a) rs
                   \<and> (\<forall>r\<in>set rs. 0 \<le> score r \<and> score r \<le> 1
                          \<and> matchType r \<in> {Exact, Prefix, Keyword, Fuzzy})
                   \<and> (\<forall>s. prefix (filter (\<lambda>r. score r = s) rs)
                                 (filter (\<lambda>r. score r = s) acc)))"
  proof
    assume a: "\<not> (patternBuilt st' n domain limit \<and> \<not> compiles RegExp (wildcardSource n))"
    obtain acc where c: "collected RegExp st' query domain limit = Inr acc"
    proof (cases "collected RegExp st' query domain limit")
      case (Inl e)
      from collected_Inl_built[OF Inl] a have False by (simp add: n_def compiles_def)
      then show ?thesis ..
    next
      case (Inr acc)
      then show ?thesis using that by blast
    qed
    define rs where "rs = take (nat limit) (sortByScore acc)"
    have r: "searchLoaded RegExp st' query domain limit = Inr rs"
      using assms by (simp add: search_collected c rs_def slice0_take)
    have 1: "int (length rs) \<le> limit" using assms by (simp add: rs_def)
    have 2: "sorted_wrt (\<lambda>a b. score b \<le> score a) rs"
      unfolding rs_def by (rule sorted_wrt_take) (rule sortByScore_sorted)
    have "set rs \<subseteq> set acc" unfolding rs_def
      by (metis set_take_subset set_sort sortByScore_def)
    then have 3: "\<forall>r\<in>set rs. 0 \<le> score r \<and> score r \<le> 1 \<and> matchType r \<in> {Exact, Prefix, Keyword, Fuzzy}"
      using collected_range[OF c] by (auto intro: MatchType.exhaust)
    have 4: "\<forall>s. prefix (filter (\<lambda>r. score r = s) rs) (filter (\<lambda>r. score r = s) acc)"
    proof
      fix s
      have "prefix (filter (\<lambda>r. score r = s) rs) (filter (\<lambda>r. score r = s) (sortByScore acc))"
        unfolding rs_def by (rule filter_take_prefix)
      then show "prefix (filter (\<lambda>r. score r = s) rs) (filter (\<lambda>r. score r = s) acc)"
        by (simp add: sortByScore_stable)
    qed
    show "\<exists>rs acc. fst (search RegExp snippetFile st query domain limit) = Inr rs
                   \<and> collected RegExp st' query domain limit = Inr acc
                   \<and> int (length rs) \<le> limit
                   \<and> sorted_wrt (\<lambda>a b. score b \<le> score a) rs
                   \<and> (\<forall>r\<in>set rs. 0 \<le> score r \<and> score r \<le> 1
                          \<and> matchType r \<in> {Exact, Prefix, Keyword, Fuzzy})
                   \<and> (\<forall>s. prefix (filter (\<lambda>r. score r = s) rs)
                                 (filter (\<lambda>r. score r = s) acc))"
      unfolding f using r c 1 2 3 4 by blast
  qed
  from l r show ?thesis unfolding st'_def n_def by (intro conjI)
qed

theorem search_contract_witness:
  "(1::int) \<le> 10
   \<and> compiles regExpFragment (wildcardSource (normalizeQuery ''Synth.*''))
   \<and> (\<exists>rs acc. fst (search regExpFragment None sampleLoader ''Synth.*'' Api 10) = Inr rs
           \<and> collected regExpFragment
                 (snd (search regExpFragment None sampleLoader ''Synth.*'' Api 10))
                 ''Synth.*'' Api 10 = Inr acc
           \<and> int (length rs) \<le> 10
           \<and> sorted_wrt (\<lambda>a b. score b \<le> score a) rs
           \<and> (\<forall>r\<in>set rs. 0 \<le> score r \<and> score r \<le> 1
                  \<and> matchType r \<in> {Exact, Prefix, Keyword, Fuzzy})
           \<and> (\<forall>s. prefix (filter (\<lambda>r. score r = s) rs) (filter (\<lambda>r. score r = s) acc)))
   \<and> patternBuilt (snd (search regExpFragment None sampleLoader ''*['' All 10))
        (normalizeQuery ''*['') All 10
   \<and> \<not> compiles regExpFragment (wildcardSource (normalizeQuery ''*[''))
   \<and> (\<exists>e. regExpFragment (wildcardSource (normalizeQuery ''*['')) = Inl e
          \<and> fst (search regExpFragment None sampleLoader ''*['' All 10) = Inl e)
   \<and> (1::int) \<le> 1
   \<and> \<not> patternBuilt (snd (search regExpFragment None bracketLoader ''Synth.[*'' Api 1))
        (normalizeQuery ''Synth.[*'') Api 1
   \<and> \<not> compiles regExpFragment (wildcardSource (normalizeQuery ''Synth.[*''))
   \<and> fst (search regExpFragment None bracketLoader ''Synth.[*'' Api 1) =
       Inr [\<lparr>res_id = ''Synth.[*'', res_domain = Api, res_name = ''Synth.[*'',
              res_description = [], score = 1, matchType = Exact\<rparr>]
   \<and> (\<exists>rs acc. fst (search regExpFragment None bracketLoader ''Synth.[*'' Api 1) = Inr rs
           \<and> collected regExpFragment
                 (snd (search regExpFragment None bracketLoader ''Synth.[*'' Api 1))
                 ''Synth.[*'' Api 1 = Inr acc
           \<and> int (length rs) \<le> 1
           \<and> sorted_wrt (\<lambda>a b. score b \<le> score a) rs
           \<and> (\<forall>r\<in>set rs. 0 \<le> score r \<and> score r \<le> 1
                  \<and> matchType r \<in> {Exact, Prefix, Keyword, Fuzzy})
           \<and> (\<forall>s. prefix (filter (\<lambda>r. score r = s) rs) (filter (\<lambda>r. score r = s) acc)))"
proof -
  have a1: "(1::int) \<le> 10" by simp
  have a2: "compiles regExpFragment (wildcardSource (normalizeQuery ''Synth.*''))" by code_simp
  have b1: "patternBuilt (snd (search regExpFragment None sampleLoader ''*['' All 10))
              (normalizeQuery ''*['') All 10" by code_simp
  have b2: "\<not> compiles regExpFragment (wildcardSource (normalizeQuery ''*[''))" by code_simp
  have c0: "(1::int) \<le> 1" by simp
  have c1: "\<not> patternBuilt (snd (search regExpFragment None bracketLoader ''Synth.[*'' Api 1))
              (normalizeQuery ''Synth.[*'') Api 1" by code_simp
  have c2: "\<not> compiles regExpFragment (wildcardSource (normalizeQuery ''Synth.[*''))" by code_simp
  have c3: "fst (search regExpFragment None bracketLoader ''Synth.[*'' Api 1) =
       Inr [\<lparr>res_id = ''Synth.[*'', res_domain = Api, res_name = ''Synth.[*'',
              res_description = [], score = 1, matchType = Exact\<rparr>]" by code_simp
  note t1 = search_contract [where RegExp = regExpFragment and snippetFile = None
      and st = sampleLoader and query = "''Synth.*''" and domain = Api, OF a1]
  note t2 = search_contract [where RegExp = regExpFragment and snippetFile = None
      and st = sampleLoader and query = "''*[''" and domain = All, OF a1]
  note t3 = search_contract [where RegExp = regExpFragment and snippetFile = None
      and st = bracketLoader and query = "''Synth.[*''" and domain = Api, OF c0]
  from a2 t1 have r1: "\<exists>rs acc. fst (search regExpFragment None sampleLoader ''Synth.*'' Api 10) = Inr rs
           \<and> collected regExpFragment
                 (snd (search regExpFragment None sampleLoader ''Synth.*'' Api 10))
                 ''Synth.*'' Api 10 = Inr acc
           \<and> int (length rs) \<le> 10
           \<and> sorted_wrt (\<lambda>a b. score b \<le> score a) rs
           \<and> (\<forall>r\<in>set rs. 0 \<le> score r \<and> score r \<le> 1
                  \<and> matchType r \<in> {Exact, Prefix, Keyword, Fuzzy})
           \<and> (\<forall>s. prefix (filter (\<lambda>r. score r = s) rs) (filter (\<lambda>r. score r = s) acc))"
    by blast
  from b1 b2 t2 have r2: "\<exists>e. regExpFragment (wildcardSource (normalizeQuery ''*['')) = Inl e
          \<and> fst (search regExpFragment None sampleLoader ''*['' All 10) = Inl e"
    by blast
  from c1 t3 have r3: "\<exists>rs acc. fst (search regExpFragment None bracketLoader ''Synth.[*'' Api 1) = Inr rs
           \<and> collected regExpFragment
                 (snd (search regExpFragment None bracketLoader ''Synth.[*'' Api 1))
                 ''Synth.[*'' Api 1 = Inr acc
           \<and> int (length rs) \<le> 1
           \<and> sorted_wrt (\<lambda>a b. score b \<le> score a) rs
           \<and> (\<forall>r\<in>set rs. 0 \<le> score r \<and> score r \<le> 1
                  \<and> matchType r \<in> {Exact, Prefix, Keyword, Fuzzy})
           \<and> (\<forall>s. prefix (filter (\<lambda>r. score r = s) rs) (filter (\<lambda>r. score r = s) acc))"
    by blast
  from a1 a2 r1 b1 b2 r2 c0 c1 c2 c3 r3 show ?thesis by (intro conjI)
qed

theorem search_raises_on_open_bracket:
  "fst (search regExpFragment None sampleLoader ''[*'' All 10) = Inl SyntaxError"
  by code_simp

section \<open>A key of an exact index is found first\<close>

lemma indexSnippet_keeps:
  "apiMethodIndex (indexSnippet st s) = apiMethodIndex st"
  "propertyIndex (indexSnippet st s) = propertyIndex st"
  "parameterIndex (indexSnippet st s) = parameterIndex st"
  by (simp_all add: indexSnippet_def Let_def)

lemma foldl_indexSnippet_keeps:
  "apiMethodIndex (foldl indexSnippet st ss) = apiMethodIndex st
   \<and> propertyIndex (foldl indexSnippet st ss) = propertyIndex st
   \<and> parameterIndex (foldl indexSnippet st ss) = parameterIndex st"
  by (induction ss arbitrary: st) (simp_all add: indexSnippet_keeps)

lemma ensure_keeps:
  "apiMethodIndex (ensureSnippetsLoaded sf st) = apiMethodIndex st"
  "propertyIndex (ensureSnippetsLoaded sf st) = propertyIndex st"
  "parameterIndex (ensureSnippetsLoaded sf st) = parameterIndex st"
  by (simp_all add: ensureSnippetsLoaded_def Let_def foldl_indexSnippet_keeps split: option.splits)

lemma storedExact_ensure: "storedExact (ensureSnippetsLoaded sf st) k = storedExact st k"
  unfolding storedExact_def ensure_keeps by (rule refl)

lemma exact_head:
  assumes "indexInv st"
    and "apiMethodIndex st k \<noteq> None \<or> propertyIndex st k \<noteq> None \<or> parameterIndex st k \<noteq> None"
  shows "\<exists>r rs h. results (exactStage st k All) = r # rs \<and> storedExact st k = Some h
           \<and> r\<lparr>res_id := k\<rparr> = h \<and> toLowerCase (res_id r) = k \<and> score r = 1"
  using assms
  unfolding exactStage_def exactApi_def exactUi_def exactMod_def exactSnippet_def indexInv_def
    storedExact_def
  by (auto split: option.splits)

lemma collected_extends:
  assumes "collected RegExp st query domain limit = Inr acc"
  shows "\<exists>ys. acc = results (exactStage st (normalizeQuery query) domain) @ ys"
proof -
  define P :: "SearchAcc \<Rightarrow> bool" where
    "P = (\<lambda>a. \<exists>ys. results a = results (exactStage st (normalizeQuery query) domain) @ ys)"
  have "\<exists>a. acc = results a \<and> P a"
    by (rule collected_inv[OF assms, where P = P]) (auto simp: P_def pushItem_results)
  then show ?thesis by (auto simp: P_def)
qed

lemma insort_key_least:
  assumes "\<forall>y\<in>set ys. f x \<le> f y"
  shows "insort_key f x ys = x # ys"
  using assms by (cases ys) auto

lemma sortByScore_top:
  assumes "score r = 1" "\<forall>y\<in>set xs. score y \<le> 1"
  shows "sortByScore (r # xs) = r # sortByScore xs"
  unfolding sortByScore_def sort_key_simps
  by (rule insort_key_least) (use assms in auto)

text \<open>
  Claim C2, as amended. For every loader that a run can reach, every key \<open>k\<close> of the
  API method, UI property or module parameter index that is its own normal form
  (\<open>normalizeQuery k = k\<close>) and every limit of at least 1 for which the search does not
  build a pattern that the constructor rejects, \<^verbatim>\<open>search(k, 'all', limit)\<close> returns, as
  its first result, the exact match for \<open>k\<close>: domain, name and description are those of
  the record stored under \<open>k\<close> in the first of the API, UI and module indexes that
  holds \<open>k\<close>, the score is 1, the match type is exact, and the id is \<open>k\<close> once it is put
  in lower case.
\<close>

theorem exact_key_first:
  assumes "reachable st"
    and "apiMethodIndex st k \<noteq> None \<or> propertyIndex st k \<noteq> None \<or> parameterIndex st k \<noteq> None"
    and "normalizeQuery k = k"
    and "1 \<le> limit"
    and "patternBuilt (snd (search RegExp snippetFile st k All limit)) k All limit
         \<longrightarrow> compiles RegExp (wildcardSource k)"
  shows "\<exists>r rs h. fst (search RegExp snippetFile st k All limit) = Inr (r # rs)
           \<and> storedExact st k = Some h
           \<and> r\<lparr>res_id := k\<rparr> = h
           \<and> toLowerCase (res_id r) = k"
proof -
  define st' where "st' = ensureSnippetsLoaded snippetFile st"
  have f: "fst (search RegExp snippetFile st k All limit) = searchLoaded RegExp st' k All limit"
    and g: "snd (search RegExp snippetFile st k All limit) = st'"
    by (simp_all add: search_def st'_def Let_def)
  have i: "indexInv st'" unfolding st'_def
    by (rule indexInv_ensure) (rule reachable_indexInv[OF assms(1)])
  have "apiMethodIndex st' k \<noteq> None \<or> propertyIndex st' k \<noteq> None \<or> parameterIndex st' k \<noteq> None"
    using assms(2) by (simp add: st'_def ensure_keeps)
  from exact_head[OF i this] obtain r es h where
    e: "results (exactStage st' k All) = r # es" and
    h: "storedExact st k = Some h" "r\<lparr>res_id := k\<rparr> = h" "toLowerCase (res_id r) = k" and
    r: "score r = 1"
    unfolding st'_def storedExact_ensure by blast
  obtain acc where c: "collected RegExp st' k All limit = Inr acc"
  proof (cases "collected RegExp st' k All limit")
    case (Inl e)
    from collected_Inl_built[OF Inl] assms(5) have False
      by (simp add: assms(3) g compiles_def)
    then show ?thesis ..
  next
    case (Inr acc)
    then show ?thesis using that by blast
  qed
  from collected_extends[OF c] e obtain ys where acc: "acc = r # (es @ ys)"
    by (auto simp: assms(3))
  have "\<forall>y\<in>set (es @ ys). score y \<le> 1"
    using collected_range[OF c] by (simp add: acc)
  then have s: "sortByScore acc = r # sortByScore (es @ ys)"
    unfolding acc by (rule sortByScore_top[OF r])
  obtain m where m: "nat limit = Suc m" using assms(4) by (cases "nat limit") auto
  have "searchLoaded RegExp st' k All limit = Inr (r # take m (sortByScore (es @ ys)))"
    using assms(4) by (simp add: search_collected c slice0_take s m)
  with h show ?thesis unfolding f by blast
qed

theorem exact_key_first_witness:
  "reachable sampleLoader
   \<and> apiMethodIndex sampleLoader ''synth.addnoteon'' \<noteq> None
   \<and> normalizeQuery ''synth.addnoteon'' = ''synth.addnoteon''
   \<and> (1::int) \<le> 10
   \<and> \<not> patternBuilt (snd (search regExpFragment None sampleLoader ''synth.addnoteon'' All 10))
          ''synth.addnoteon'' All 10
   \<and> storedExact sampleLoader ''synth.addnoteon'' =
        Some \<lparr>res_id = ''synth.addnoteon'', res_domain = Api, res_name = ''Synth.addNoteOn'',
               res_description = ''Adds a note on'', score = 1, matchType = Exact\<rparr>
   \<and> (\<exists>r rs h. fst (search regExpFragment None sampleLoader ''synth.addnoteon'' All 10) = Inr (r # rs)
           \<and> storedExact sampleLoader ''synth.addnoteon'' = Some h
           \<and> r\<lparr>res_id := ''synth.addnoteon''\<rparr> = h
           \<and> toLowerCase (res_id r) = ''synth.addnoteon'')
   \<and> reachable bracketLoader
   \<and> apiMethodIndex bracketLoader ''synth.[*'' \<noteq> None
   \<and> normalizeQuery ''synth.[*'' = ''synth.[*''
   \<and> (1::int) \<le> 1
   \<and> \<not> patternBuilt (snd (search regExpFragment None bracketLoader ''synth.[*'' All 1))
          ''synth.[*'' All 1
   \<and> (\<exists>r rs h. fst (search regExpFragment None bracketLoader ''synth.[*'' All 1) = Inr (r # rs)
           \<and> storedExact bracketLoader ''synth.[*'' = Some h
           \<and> r\<lparr>res_id := ''synth.[*''\<rparr> = h
           \<and> toLowerCase (res_id r) = ''synth.[*'')"
proof -
  have a1: "reachable sampleLoader" unfolding sampleLoader_def by (rule reachable_built)
  have a2: "apiMethodIndex sampleLoader ''synth.addnoteon'' \<noteq> None" by code_simp
  have a3: "normalizeQuery ''synth.addnoteon'' = ''synth.addnoteon''" by code_simp
  have a4: "(1::int) \<le> 10" by simp
  have a5: "\<not> patternBuilt (snd (search regExpFragment None sampleLoader ''synth.addnoteon'' All 10))
          ''synth.addnoteon'' All 10" by code_simp
  have a6: "storedExact sampleLoader ''synth.addnoteon'' =
        Some \<lparr>res_id = ''synth.addnoteon'', res_domain = Api, res_name = ''Synth.addNoteOn'',
               res_description = ''Adds a note on'', score = 1, matchType = Exact\<rparr>" by code_simp
  have b1: "reachable bracketLoader" unfolding bracketLoader_def by (rule reachable_built)
  have b2: "apiMethodIndex bracketLoader ''synth.[*'' \<noteq> None" by code_simp
  have b3: "normalizeQuery ''synth.[*'' = ''synth.[*''" by code_simp
  have b4: "(1::int) \<le> 1" by simp
  have b5: "\<not> patternBuilt (snd (search regExpFragment None bracketLoader ''synth.[*'' All 1))
          ''synth.[*'' All 1" by code_simp
  from a1 a2 a3 a4 a5
    exact_key_first [where st = sampleLoader and k = "''synth.addnoteon''" and limit = 10
        and RegExp = regExpFragment and snippetFile = None]
  have ra: "\<exists>r rs h. fst (search regExpFragment None sampleLoader ''synth.addnoteon'' All 10) = Inr (r # rs)
           \<and> storedExact sampleLoader ''synth.addnoteon'' = Some h
           \<and> r\<lparr>res_id := ''synth.addnoteon''\<rparr> = h
           \<and> toLowerCase (res_id r) = ''synth.addnoteon''"
    by blast
  from b1 b2 b3 b4 b5
    exact_key_first [where st = bracketLoader and k = "''synth.[*''" and limit = 1
        and RegExp = regExpFragment and snippetFile = None]
  have rb: "\<exists>r rs h. fst (search regExpFragment None bracketLoader ''synth.[*'' All 1) = Inr (r # rs)
           \<and> storedExact bracketLoader ''synth.[*'' = Some h
           \<and> r\<lparr>res_id := ''synth.[*''\<rparr> = h
           \<and> toLowerCase (res_id r) = ''synth.[*''"
    by blast
  from a1 a2 a3 a4 a5 a6 ra b1 b2 b3 b4 b5 rb show ?thesis by (intro conjI)
qed

theorem exact_key_not_found:
  "apiMethodIndex parenLoader ''knob.setvalue()'' \<noteq> None
   \<and> fst (search regExpFragment None parenLoader ''knob.setvalue()'' All 10) =
       Inr [\<lparr>res_id = ''knob.setvalue()'', res_domain = Api, res_name = ''Knob.setValue()'',
              res_description = [], score = 4 / 5, matchType = Keyword\<rparr>]
   \<and> apiMethodIndex bracketLoader ''synth.[*'' \<noteq> None
   \<and> fst (search regExpFragment None bracketLoader ''synth.[*'' All 10) = Inl SyntaxError"
  by code_simp

section \<open>The wildcard query for a namespace\<close>

lemma nameInv_ui: "nameInv st \<Longrightarrow> nameInv (indexUIProperty st prop)"
  by (simp add: nameInv_def indexUIProperty_def Let_def)

lemma nameInv_api: "nameInv st \<Longrightarrow> nameInv (indexAPIMethod st m)"
  by (simp add: nameInv_def indexAPIMethod_def Let_def)

lemma nameInv_mod: "nameInv st \<Longrightarrow> nameInv (indexModuleParameter st p)"
  by (simp add: nameInv_def indexModuleParameter_def Let_def)

lemma nameInv_snippet: "nameInv st \<Longrightarrow> nameInv (indexSnippet st s)"
  by (simp add: nameInv_def indexSnippet_def Let_def)

lemma nameInv_fields:
  "nameInv (st\<lparr>data := d\<rparr>) = nameInv st"
  "nameInv (st\<lparr>snippetsLoaded := b\<rparr>) = nameInv st"
  by (simp_all add: nameInv_def)

lemma nameInv_buildIndexes: "nameInv st \<Longrightarrow> nameInv (buildIndexes st)"
proof (cases "data st")
  case None
  then show "nameInv st \<Longrightarrow> ?thesis" by (simp add: buildIndexes_def)
next
  case (Some d)
  have 0: "nameInv (st\<lparr>propertyIndex := Map.empty, apiMethodIndex := Map.empty,
                      parameterIndex := Map.empty, snippetIndex := Map.empty,
                      keywordIndex := Map.empty, allItems := []\<rparr>)"
    by (simp add: nameInv_def)
  show ?thesis unfolding buildIndexes_def Some option.case Let_def
    by (intro foldl_preserves[where P = nameInv] 0 nameInv_ui nameInv_api nameInv_mod)
qed

lemma nameInv_ensure: "nameInv st \<Longrightarrow> nameInv (ensureSnippetsLoaded sf st)"
  unfolding ensureSnippetsLoaded_def Let_def
  by (auto split: option.splits simp: nameInv_fields
        intro!: foldl_preserves[where P = nameInv] nameInv_snippet)

lemma nameInv_loadData:
  assumes "nameInv st" "loadData fs st = Inr (st', fs')"
  shows "nameInv st'"
proof (cases "fst (loadCache fs st)")
  case True
  then have "st' = snd (loadCache fs st)"
    using assms(2) by (auto simp: loadData_def split: prod.splits bool.splits)
  moreover have "nameInv (snd (loadCache fs st))"
    using assms(1)
    by (auto simp: loadCache_def loadCacheTry_def nameInv_fields split: CacheFile.splits sum.splits
          intro!: nameInv_buildIndexes)
  ultimately show ?thesis by simp
next
  case False
  then have m: "loadCache fs st = (False, st)"
    by (auto simp: loadCache_def loadCacheTry_def split: CacheFile.splits sum.splits if_splits)
  then have "rebuild fs st = Inr (st', fs')" using assms(2) by (simp add: loadData_def)
  then show ?thesis using assms(1)
    by (auto simp: rebuild_def Let_def nameInv_fields split: option.splits prod.splits
          intro!: nameInv_buildIndexes)
qed

lemma reachable_nameInv: "reachable st \<Longrightarrow> nameInv st"
proof (induction rule: reachable.induct)
  case constructed
  then show ?case by (simp add: nameInv_def newLoader_def)
next
  case (loaded st fs st' fs')
  then show ?case by (blast intro: nameInv_loadData)
next
  case (snippets st snippetFile)
  then show ?case by (blast intro: nameInv_ensure)
qed

lemma matchTerms_literal:
  "matchTerms (One (Literal l) # ts) s =
     (\<exists>c cs. s = c # cs \<and> toLowerChar c = toLowerChar l \<and> matchTerms ts cs)"
  by (cases s) (simp_all add: atomMatches_def)

lemma matchTerms_any:
  "matchTerms (One AnyChar # ts) s \<Longrightarrow> s \<noteq> []"
  by (cases s) simp_all

lemma synthPattern_starts:
  assumes "synthPattern s"
  shows "startsWithSynth (toLowerCase s)"
proof -
  have l: "toLowerChar CHR ''s'' = CHR ''s''" "toLowerChar CHR ''y'' = CHR ''y''"
    "toLowerChar CHR ''n'' = CHR ''n''" "toLowerChar CHR ''t'' = CHR ''t''"
    "toLowerChar CHR ''h'' = CHR ''h''"
    by (simp_all add: toLowerChar_def)
  from assms obtain c1 c2 c3 c4 c5 rest where
    s: "s = c1 # c2 # c3 # c4 # c5 # rest" and
    c: "toLowerChar c1 = CHR ''s''" "toLowerChar c2 = CHR ''y''" "toLowerChar c3 = CHR ''n''"
       "toLowerChar c4 = CHR ''t''" "toLowerChar c5 = CHR ''h''" and
    r: "matchTerms [One AnyChar, Star AnyChar] rest"
    unfolding synthPattern_def matchTerms_literal l by blast
  from r have "rest \<noteq> []" by (rule matchTerms_any)
  then show ?thesis
    by (simp add: startsWithSynth_def toLowerCase_def s c)
qed

lemma itemsOfDomain_domain: "d \<noteq> All \<Longrightarrow> item \<in> set (itemsOfDomain st d) \<Longrightarrow> item_domain item = d"
  by (auto simp: itemsOfDomain_def)

lemma norm_synth: "normalizeQuery ''Synth.*'' = ''synth.*''"
  by code_simp

lemma src_synth: "wildcardSource ''synth.*'' = ''^synth..*$''"
  by (simp add: wildcardSource_def replaceStars_def)

lemma regExpFragment_synth: "regExpFragment ''^synth..*$'' = Inr synthPattern"
  by (simp add: regExpFragment_def isSyntaxCharacter_def synthPattern_def)

lemma prefix_stage_types:
  assumes "\<forall>r\<in>set (results acc). matchType r = Exact \<or> matchType r = Prefix"
  shows "\<forall>r\<in>set (results (prefixLoop regex limit items acc)). matchType r = Exact \<or> matchType r = Prefix"
  by (rule prefixLoop_inv[where P = "\<lambda>a. \<forall>r\<in>set (results a). matchType r = Exact \<or> matchType r = Prefix", OF assms])
     (auto simp: pushItem_results)

text \<open>
  Claim C5, as amended. For every loader that a run can reach,
  \<^verbatim>\<open>search("Synth.*", 'api', 10)\<close> returns a list in which every result of match type
  prefix has score 0.9, is of the API domain, and has an id that the pattern
  \<^verbatim>\<open>^synth..*$\<close> accepts, so that the id starts with \<^verbatim>\<open>synth\<close> and goes on with at least
  one character. When the results array holds at least 10 entries after the prefix
  stage, every returned result is an exact or a prefix match.
\<close>

theorem synth_wildcard_prefix_results:
  assumes "reachable st"
  shows "\<exists>rs. fst (search regExpFragment snippetFile st ''Synth.*'' Api 10) = Inr rs
           \<and> (\<forall>r\<in>set rs. matchType r = Prefix \<longrightarrow>
                 score r = 9 / 10 \<and> res_domain r = Api
                 \<and> synthPattern (res_id r) \<and> startsWithSynth (res_id r))
           \<and> (10 \<le> int (length (results (prefixLoop synthPattern 10 (itemsOfDomain st Api)
                                             (exactStage st ''synth.*'' Api))))
                \<longrightarrow> (\<forall>r\<in>set rs. matchType r = Exact \<or> matchType r = Prefix))"
proof -
  have f: "fst (search regExpFragment snippetFile st ''Synth.*'' Api 10) =
             searchLoaded regExpFragment st ''Synth.*'' Api 10"
    by (simp add: search_def Let_def)
  have comp: "regExpFragment (wildcardSource (normalizeQuery ''Synth.*'')) = Inr synthPattern"
    by (simp add: norm_synth src_synth regExpFragment_synth)
  obtain acc where c: "collected regExpFragment st ''Synth.*'' Api 10 = Inr acc"
    using collected_Inl[of regExpFragment st "''Synth.*''" Api 10] comp
    by (cases "collected regExpFragment st ''Synth.*'' Api 10") auto
  define rs where "rs = take 10 (sortByScore acc)"
  have r: "searchLoaded regExpFragment st ''Synth.*'' Api 10 = Inr rs"
    by (simp add: search_collected c rs_def slice0_def)
  have sub: "set rs \<subseteq> set acc" unfolding rs_def
    by (metis set_take_subset set_sort sortByScore_def)
  have n: "nameInv st" by (rule reachable_nameInv[OF assms])
  have ids: "synthPattern (item_id item) \<and> startsWithSynth (item_id item)"
    if "item \<in> set (itemsOfDomain st Api)"
      and "synthPattern (item_id item) \<or> synthPattern (toLowerCase (item_name item))" for item
  proof -
    have d: "item_domain item = Api" using that(1) by (simp add: itemsOfDomain_domain)
    have "item \<in> set (allItems st)" using that(1) itemsOfDomain_subset by blast
    with n d have i: "item_id item = toLowerCase (item_name item)" by (simp add: nameInv_def)
    with that(2) have p: "synthPattern (item_id item)" by auto
    then have "startsWithSynth (toLowerCase (item_id item))" by (rule synthPattern_starts)
    with p show ?thesis by (simp add: i lower_idem)
  qed
  define P :: "SearchAcc \<Rightarrow> bool" where
    "P = (\<lambda>a. \<forall>r\<in>set (results a). matchType r = Prefix \<longrightarrow>
                 score r = 9 / 10 \<and> res_domain r = Api
                 \<and> synthPattern (res_id r) \<and> startsWithSynth (res_id r))"
  have "\<exists>a. acc = results a \<and> P a"
  proof (rule collected_inv[OF c, where P = P])
    show "P (exactStage st (normalizeQuery ''Synth.*'') Api)"
      using exact_scores[of st "normalizeQuery ''Synth.*''" Api] by (auto simp: P_def)
  next
    fix a item regex'
    assume "P a" "regExpFragment (wildcardSource (normalizeQuery ''Synth.*'')) = Inr regex'"
      "item \<in> set (itemsOfDomain st Api)"
      "regex' (item_id item) \<or> regex' (toLowerCase (item_name item))"
    moreover from this comp have "regex' = synthPattern" by simp
    ultimately show "P (pushItem a item (9 / 10) Prefix)"
      using itemsOfDomain_domain[of Api item st] ids[of item]
      by (auto simp: P_def pushItem_results)
  qed (auto simp: P_def pushItem_results)
  then have 1: "\<forall>r\<in>set rs. matchType r = Prefix \<longrightarrow>
                 score r = 9 / 10 \<and> res_domain r = Api
                 \<and> synthPattern (res_id r) \<and> startsWithSynth (res_id r)"
    using sub by (auto simp: P_def)
  have 2: "10 \<le> int (length (results (prefixLoop synthPattern 10 (itemsOfDomain st Api)
                                             (exactStage st ''synth.*'' Api))))
                \<longrightarrow> (\<forall>r\<in>set rs. matchType r = Exact \<or> matchType r = Prefix)"
  proof
    let ?a2 = "prefixLoop synthPattern 10 (itemsOfDomain st Api) (exactStage st ''synth.*'' Api)"
    assume l: "10 \<le> int (length (results ?a2))"
    have star: "CHR ''*'' \<in> set ''synth.*''" by simp
    have comp': "regExpFragment (wildcardSource ''synth.*'') = Inr synthPattern"
      using comp by (simp add: norm_synth)
    have "acc = results (exactStage st ''synth.*'' Api) \<or> acc = results ?a2"
      using c l comp'
      by (simp add: collected_def Let_def norm_synth prefixStage_def star split: if_splits)
    moreover have "\<forall>r\<in>set (results (exactStage st ''synth.*'' Api)). matchType r = Exact \<or> matchType r = Prefix"
      using exact_scores[of st "''synth.*''" Api] by auto
    moreover from this have "\<forall>r\<in>set (results ?a2). matchType r = Exact \<or> matchType r = Prefix"
      by (rule prefix_stage_types)
    ultimately show "\<forall>r\<in>set rs. matchType r = Exact \<or> matchType r = Prefix"
      using sub by blast
  qed
  show ?thesis unfolding f using r 1 2 by blast
qed

theorem synth_wildcard_prefix_results_witness:
  "reachable synthLoader
   \<and> 10 \<le> int (length (results (prefixLoop synthPattern 10 (itemsOfDomain synthLoader Api)
                                   (exactStage synthLoader ''synth.*'' Api))))
   \<and> (\<exists>rs. fst (search regExpFragment None synthLoader ''Synth.*'' Api 10) = Inr rs
           \<and> (\<forall>r\<in>set rs. matchType r = Prefix \<longrightarrow>
                 score r = 9 / 10 \<and> res_domain r = Api
                 \<and> synthPattern (res_id r) \<and> startsWithSynth (res_id r))
           \<and> (\<forall>r\<in>set rs. matchType r = Exact \<or> matchType r = Prefix))
   \<and> map res_id (case fst (search regExpFragment None synthLoader ''Synth.*'' Api 10) of
                   Inl e \<Rightarrow> [] | Inr rs \<Rightarrow> rs) =
       [''synth.addnoteon'', ''synth.addnoteoff'', ''synth.playnote'', ''synth.noteoff'',
        ''synth.setattribute'', ''synth.getattribute'', ''synth.addcontroller'',
        ''synth.addpitchfade'', ''synth.addvolumefade'', ''synth.getnumchildsynths'']
   \<and> reachable sampleLoader
   \<and> (\<exists>rs. fst (search regExpFragment None sampleLoader ''Synth.*'' Api 10) = Inr rs
           \<and> (\<forall>r\<in>set rs. matchType r = Prefix \<longrightarrow>
                 score r = 9 / 10 \<and> res_domain r = Api
                 \<and> synthPattern (res_id r) \<and> startsWithSynth (res_id r)))"
proof -
  have h1: "reachable synthLoader" unfolding synthLoader_def by (rule reachable_built)
  have h2: "10 \<le> int (length (results (prefixLoop synthPattern 10 (itemsOfDomain synthLoader Api)
                                   (exactStage synthLoader ''synth.*'' Api))))"
    by code_simp
  have h3: "map res_id (case fst (search regExpFragment None synthLoader ''Synth.*'' Api 10) of
                   Inl e \<Rightarrow> [] | Inr rs \<Rightarrow> rs) =
       [''synth.addnoteon'', ''synth.addnoteoff'', ''synth.playnote'', ''synth.noteoff'',
        ''synth.setattribute'', ''synth.getattribute'', ''synth.addcontroller'',
        ''synth.addpitchfade'', ''synth.addvolumefade'', ''synth.getnumchildsynths'']"
    by code_simp
  have h4: "reachable sampleLoader" unfolding sampleLoader_def by (rule reachable_built)
  from h1 h2 synth_wildcard_prefix_results [where st = synthLoader and snippetFile = None]
  have r1: "\<exists>rs. fst (search regExpFragment None synthLoader ''Synth.*'' Api 10) = Inr rs
           \<and> (\<forall>r\<in>set rs. matchType r = Prefix \<longrightarrow>
                 score r = 9 / 10 \<and> res_domain r = Api
                 \<and> synthPattern (res_id r) \<and> startsWithSynth (res_id r))
           \<and> (\<forall>r\<in>set rs. matchType r = Exact \<or> matchType r = Prefix)"
    by blast
  from h4 synth_wildcard_prefix_results [where st = sampleLoader and snippetFile = None]
  have r2: "\<exists>rs. fst (search regExpFragment None sampleLoader ''Synth.*'' Api 10) = Inr rs
           \<and> (\<forall>r\<in>set rs. matchType r = Prefix \<longrightarrow>
                 score r = 9 / 10 \<and> res_domain r = Api
                 \<and> synthPattern (res_id r) \<and> startsWithSynth (res_id r))"
    by blast
  from h1 h2 r1 h3 h4 r2 show ?thesis by (intro conjI)
qed

theorem synth_wildcard_returns_other_stages:
  "fst (search regExpFragment None sampleLoader ''Synth.*'' Api 10) =
     Inr [\<lparr>res_id = ''synth.addnoteon'', res_domain = Api, res_name = ''Synth.addNoteOn'',
            res_description = ''Adds a note on'', score = 9 / 10, matchType = Prefix\<rparr>,
          \<lparr>res_id = ''engine.getsynth'', res_domain = Api, res_name = ''Engine.getSynth'',
            res_description = [], score = 1 / 2, matchType = Fuzzy\<rparr>]"
  by code_simp

section \<open>A snapshot is loaded after a source file has changed\<close>

text \<open>
  Claim C8. \<^verbatim>\<open>getFileMtime\<close> returns 0 for every file, whatever its modification time:
  \<^verbatim>\<open>require\<close> is not bound in the module, the call raises, and the \<^verbatim>\<open>catch\<close> returns 0.
  So \<^verbatim>\<open>saveCache\<close> stores 0 for the three timestamps and \<^verbatim>\<open>loadCache\<close> compares 0 with
  0. The snapshot that a first \<^verbatim>\<open>loadData\<close> has saved is loaded again after the API
  source file has been modified (a method added, its modification time gone from 2000
  to 2500): \<^verbatim>\<open>loadCache\<close> reports success, and \<^verbatim>\<open>loadData\<close> returns the loader of the
  snapshot, in which the new method is missing, where the rebuild would have indexed it.
\<close>

theorem loadCache_accepts_stale_snapshot:
  "getFileMtime fs path = 0
   \<and> statMtime savedFS apiPath = Some 2000
   \<and> statMtime changedFS apiPath = Some 2500
   \<and> cacheFile changedFS = cacheFile savedFS
   \<and> (\<exists>cache. cacheFile savedFS = Parsed cache \<and> version cache = Some ''1.1''
          \<and> uiMtime cache = Some 0 \<and> apiMtime cache = Some 0 \<and> procMtime cache = Some 0)
   \<and> fst (loadCache changedFS newLoader)
   \<and> (\<exists>st. loadData changedFS newLoader = Inr (st, changedFS)
          \<and> apiMethodIndex st ''synth.noteoff'' = None)
   \<and> (\<exists>st fs. rebuild changedFS newLoader = Inr (st, fs)
          \<and> apiMethodIndex st ''synth.noteoff'' \<noteq> None)"
proof -
  have g: "\<And>fs path. getFileMtime fs path = 0" by (simp add: getFileMtime_def require_def)
  define st0 where "st0 = buildIndexes (newLoader\<lparr>data := Some \<lparr>uiComponentProperties = [],
                 scriptingAPI = [apiMethod ''Synth'' ''addNoteOn'' ''Adds a note on''],
                 moduleParameters = [], codeSnippets = []\<rparr>\<rparr>)"
  have s: "savedFS = saveCache sourceFS st0"
    by (simp add: savedFS_def loadData_def loadCache_def loadCacheTry_def sourceFS_def
          rebuild_def Let_def st0_def)
  have d0: "data st0 = Some \<lparr>uiComponentProperties = [],
                 scriptingAPI = [apiMethod ''Synth'' ''addNoteOn'' ''Adds a note on''],
                 moduleParameters = [], codeSnippets = []\<rparr>"
    by (simp add: st0_def buildIndexes_def Let_def indexAPIMethod_def)
  have c: "cacheFile savedFS = Parsed
             \<lparr>version = Some ''1.1'', uiMtime = Some 0, apiMtime = Some 0, procMtime = Some 0,
              cache_data = data st0\<rparr>"
    unfolding s by (simp add: saveCache_def sourceFS_def g)
  have c': "cacheFile changedFS = cacheFile savedFS" by (simp add: changedFS_def)
  have m1: "statMtime savedFS apiPath = Some 2000"
    unfolding s
    by (simp add: saveCache_def sourceFS_def sampleMtimes_def apiPath_def uiPath_def)
  have m2: "statMtime changedFS apiPath = Some 2500" by (simp add: changedFS_def)
  have lc: "loadCache changedFS newLoader =
              (True, buildIndexes (newLoader\<lparr>data := data st0, snippetsLoaded := False\<rparr>))"
    by (simp add: loadCache_def loadCacheTry_def c' c g)
  then have l: "fst (loadCache changedFS newLoader)" by simp
  have k: "apiMethodIndex (buildIndexes (newLoader\<lparr>data := data st0, snippetsLoaded := False\<rparr>))
             ''synth.noteoff'' = None"
    unfolding d0 by code_simp
  have d: "\<exists>st. loadData changedFS newLoader = Inr (st, changedFS)
          \<and> apiMethodIndex st ''synth.noteoff'' = None"
    using k by (simp add: loadData_def lc)
  have "case rebuild changedFS newLoader of
          Inl e \<Rightarrow> False | Inr (st, fs) \<Rightarrow> apiMethodIndex st ''synth.noteoff'' \<noteq> None"
    by code_simp
  then have r: "\<exists>st fs. rebuild changedFS newLoader = Inr (st, fs)
          \<and> apiMethodIndex st ''synth.noteoff'' \<noteq> None"
    by (auto split: sum.splits)
  from c have e: "\<exists>cache. cacheFile savedFS = Parsed cache \<and> version cache = Some ''1.1''
          \<and> uiMtime cache = Some 0 \<and> apiMtime cache = Some 0 \<and> procMtime cache = Some 0"
    by simp
  from g m1 m2 c' e l d r show ?thesis by (intro conjI) simp_all
qed

section \<open>Related items\<close>

lemma related_fold:
  "foldl (relatedStep n item) acc items =
     acc @ map (\<lambda>other. (item_name other, relatedScore item other))
             (filter (\<lambda>other. item_id other \<noteq> n \<and> overlap item other > 0) items)"
  by (induction items arbitrary: acc) (simp_all add: relatedStep_def)

lemma related_ranked:
  "foldl (relatedStep n item) [] (allItems st) = rankedByOverlap st n item"
  by (simp add: related_fold rankedByOverlap_def overlapping_def relatedScore_def Let_def)

lemma find_lower_None:
  "(find (\<lambda>r. toLowerCase (fst r) = toLowerCase ref) related = None)
     = (toLowerCase ref \<notin> set (map toLowerCase (map fst related)))"
  by (force simp: find_None_iff)

lemma inject_fold:
  "foldl (injectRef sc) related refs =
     related @ map (\<lambda>ref. (ref, sc)) (newRefs (map fst related) refs)"
proof (induction refs arbitrary: related)
  case Nil
  then show ?case by simp
next
  case (Cons ref refs)
  show ?case
  proof (cases "toLowerCase ref \<in> set (map toLowerCase (map fst related))")
    case True
    then have "injectRef sc related ref = related"
      by (simp add: injectRef_def find_lower_None del: set_map)
    with True show ?thesis by (simp add: Cons.IH del: set_map)
  next
    case False
    then have "injectRef sc related ref = related @ [(ref, sc)]"
      by (simp add: injectRef_def find_lower_None del: set_map)
    with False show ?thesis by (simp add: Cons.IH del: set_map)
  qed
qed

lemma map_fst_pair: "map fst (map (\<lambda>ref. (ref, sc)) refs) = refs"
  by (induction refs) simp_all

lemma relatedScored_parts:
  "relatedScored st n item =
     rankedByOverlap st n item
     @ map (\<lambda>ref. (ref, toDouble (9 / 10))) (injectedAPIs st n item)
     @ map (\<lambda>ref. (ref, toDouble (85 / 100))) (injectedComponents st n item)"
proof (cases "item_domain item = Snippets")
  case False
  then show ?thesis
    by (simp add: relatedScored_def related_ranked injectedAPIs_def injectedComponents_def
          declaredAPIs_def declaredComponents_def)
next
  case True
  show ?thesis
  proof (cases "snippetIndex st n")
    case None
    then show ?thesis using True
      by (simp add: relatedScored_def related_ranked injectedAPIs_def injectedComponents_def
            declaredAPIs_def declaredComponents_def)
  next
    case (Some snippet)
    have a: "declaredAPIs st n item = relatedAPIs snippet"
      and c: "declaredComponents st n item = relatedComponents snippet"
      using True Some by (simp_all add: declaredAPIs_def declaredComponents_def)
    have "relatedScored st n item =
            foldl (injectRef (toDouble (85 / 100)))
              (foldl (injectRef (toDouble (9 / 10))) (rankedByOverlap st n item) (relatedAPIs snippet))
              (relatedComponents snippet)"
      using True Some by (simp add: relatedScored_def related_ranked Let_def)
    also have "\<dots> = (rankedByOverlap st n item
                      @ map (\<lambda>ref. (ref, toDouble (9 / 10))) (injectedAPIs st n item))
                     @ map (\<lambda>ref. (ref, toDouble (85 / 100))) (injectedComponents st n item)"
      unfolding inject_fold injectedAPIs_def injectedComponents_def a c map_append map_fst_pair
      by (rule refl)
    finally show ?thesis by simp
  qed
qed

text \<open>
  Claim C9, as amended. For an id that no catalog entry has, \<^verbatim>\<open>getRelatedItems\<close> returns
  the empty list. Otherwise it returns the names of the following list, sorted by
  falling score (entries of equal score in the order of the list) and cut at \<open>limit\<close>:
  first the catalog entries whose id differs from the normalized subject id and whose
  keyword overlap with the subject is positive, in catalog order, each scored
  overlap / max(|subject.keywords|, 1) plus 0.2 when it is of the subject's domain,
  computed in doubles; then, for a snippet subject, the related APIs that the snippet
  declares, scored 0.9, and then its related components, scored 0.85, each of them
  unless it equals, without regard to case, a name already in the list. So the subject
  itself and every entry with disjoint keywords are left out of the overlap ranking, a
  declared reference is returned whatever its overlap, every returned name is the name
  of a ranked entry or a declared reference, and a subject that is no snippet declares
  nothing.
\<close>

theorem related_items_by_overlap_or_reference:
  "(find (\<lambda>i. item_id i = normalizeQuery ident) (allItems st) = None
      \<longrightarrow> getRelatedItems st ident limit = [])
   \<and> (find (\<lambda>i. item_id i = normalizeQuery ident) (allItems st) = Some item \<longrightarrow>
        getRelatedItems st ident limit
          = map fst (slice0 (sortPairs (relatedScored st (normalizeQuery ident) item)) limit)
        \<and> relatedScored st (normalizeQuery ident) item =
            rankedByOverlap st (normalizeQuery ident) item
            @ map (\<lambda>ref. (ref, toDouble (9 / 10))) (injectedAPIs st (normalizeQuery ident) item)
            @ map (\<lambda>ref. (ref, toDouble (85 / 100)))
                (injectedComponents st (normalizeQuery ident) item)
        \<and> item \<notin> set (overlapping st (normalizeQuery ident) item)
        \<and> set (overlapping st (normalizeQuery ident) item) =
            {other \<in> set (allItems st). item_id other \<noteq> normalizeQuery ident \<and> 0 < overlap item other}
        \<and> set (getRelatedItems st ident limit)
             \<subseteq> item_name ` set (overlapping st (normalizeQuery ident) item)
               \<union> set (declaredAPIs st (normalizeQuery ident) item)
               \<union> set (declaredComponents st (normalizeQuery ident) item)
        \<and> (item_domain item \<noteq> Snippets \<longrightarrow>
              declaredAPIs st (normalizeQuery ident) item = []
              \<and> declaredComponents st (normalizeQuery ident) item = []))"
proof (intro conjI impI)
  assume "find (\<lambda>i. item_id i = normalizeQuery ident) (allItems st) = None"
  then show "getRelatedItems st ident limit = []" by (simp add: getRelatedItems_def)
next
  assume f: "find (\<lambda>i. item_id i = normalizeQuery ident) (allItems st) = Some item"
  define n where "n = normalizeQuery ident"
  show g: "getRelatedItems st ident limit = map fst (slice0 (sortPairs (relatedScored st (normalizeQuery ident) item)) limit)"
    using f by (simp add: getRelatedItems_def)
  show "relatedScored st (normalizeQuery ident) item =
            rankedByOverlap st (normalizeQuery ident) item
            @ map (\<lambda>ref. (ref, toDouble (9 / 10))) (injectedAPIs st (normalizeQuery ident) item)
            @ map (\<lambda>ref. (ref, toDouble (85 / 100)))
                (injectedComponents st (normalizeQuery ident) item)"
    by (rule relatedScored_parts)
  have "item_id item = n" using f by (auto simp: find_Some_iff n_def)
  then show "item \<notin> set (overlapping st (normalizeQuery ident) item)"
    by (simp add: overlapping_def n_def)
  show "set (overlapping st (normalizeQuery ident) item) =
            {other \<in> set (allItems st). item_id other \<noteq> normalizeQuery ident \<and> 0 < overlap item other}"
    by (simp add: overlapping_def)
  have nr: "set (newRefs present refs) \<subseteq> set refs" for present refs
    by (induction refs arbitrary: present) auto
  have fs: "fst ` set (relatedScored st n item)
              \<subseteq> item_name ` set (overlapping st n item)
                \<union> set (declaredAPIs st n item) \<union> set (declaredComponents st n item)"
    unfolding relatedScored_parts[of st n item] injectedAPIs_def injectedComponents_def
    using nr by (auto simp: rankedByOverlap_def image_Un image_image)
  obtain m where "slice0 (sortPairs (relatedScored st n item)) limit = take m (sortPairs (relatedScored st n item))"
    using slice0_is_take by blast
  then have "set (getRelatedItems st ident limit) \<subseteq> fst ` set (relatedScored st n item)"
    unfolding g n_def[symmetric] sortPairs_def
    by (metis (no_types, lifting) image_mono set_map set_sort set_take_subset)
  then show "set (getRelatedItems st ident limit)
             \<subseteq> item_name ` set (overlapping st (normalizeQuery ident) item)
               \<union> set (declaredAPIs st (normalizeQuery ident) item)
               \<union> set (declaredComponents st (normalizeQuery ident) item)"
    using fs unfolding n_def by (rule subset_trans)
next
  assume "find (\<lambda>i. item_id i = normalizeQuery ident) (allItems st) = Some item"
    "item_domain item \<noteq> Snippets"
  then show "declaredAPIs st (normalizeQuery ident) item = []"
    "declaredComponents st (normalizeQuery ident) item = []"
    by (simp_all add: declaredAPIs_def declaredComponents_def)
qed

theorem related_items_by_overlap_or_reference_witness:
  "find (\<lambda>i. item_id i = normalizeQuery ''Synth.playNote'') (allItems roundingLoader)
     = Some playNoteItem
   \<and> item_domain playNoteItem \<noteq> Snippets
   \<and> relatedScored roundingLoader (normalizeQuery ''Synth.playNote'') playNoteItem =
       [(''Knob.range'', toDouble (3 / 5)),
        (''Synth.stop'', doubleAdd (toDouble (2 / 5)) (toDouble (2 / 10)))]
   \<and> toDouble (3 / 5) < doubleAdd (toDouble (2 / 5)) (toDouble (2 / 10))
   \<and> getRelatedItems roundingLoader ''Synth.playNote'' 1 = [''Synth.stop'']
   \<and> getRelatedItems roundingLoader ''Synth.playNote'' 1
       = map fst (slice0 (sortPairs (relatedScored roundingLoader (normalizeQuery ''Synth.playNote'')
                                       playNoteItem)) 1)
   \<and> playNoteItem \<notin> set (overlapping roundingLoader (normalizeQuery ''Synth.playNote'') playNoteItem)
   \<and> declaredAPIs roundingLoader (normalizeQuery ''Synth.playNote'') playNoteItem = []
   \<and> declaredComponents roundingLoader (normalizeQuery ''Synth.playNote'') playNoteItem = []
   \<and> find (\<lambda>i. item_id i = normalizeQuery ''knob-demo'') (allItems snippetLoader)
       = Some knobDemoItem
   \<and> rankedByOverlap snippetLoader (normalizeQuery ''knob-demo'') knobDemoItem = []
   \<and> injectedAPIs snippetLoader (normalizeQuery ''knob-demo'') knobDemoItem = [''Synth.addNoteOn'']
   \<and> injectedComponents snippetLoader (normalizeQuery ''knob-demo'') knobDemoItem = [''ScriptSlider'']
   \<and> relatedScored snippetLoader (normalizeQuery ''knob-demo'') knobDemoItem =
       rankedByOverlap snippetLoader (normalizeQuery ''knob-demo'') knobDemoItem
       @ map (\<lambda>ref. (ref, toDouble (9 / 10)))
           (injectedAPIs snippetLoader (normalizeQuery ''knob-demo'') knobDemoItem)
       @ map (\<lambda>ref. (ref, toDouble (85 / 100)))
           (injectedComponents snippetLoader (normalizeQuery ''knob-demo'') knobDemoItem)
   \<and> getRelatedItems snippetLoader ''knob-demo'' 5
       = map fst (slice0 (sortPairs (relatedScored snippetLoader (normalizeQuery ''knob-demo'')
                                       knobDemoItem)) 5)
   \<and> getRelatedItems snippetLoader ''knob-demo'' 5 = [''Synth.addNoteOn'', ''ScriptSlider'']
   \<and> find (\<lambda>i. item_id i = normalizeQuery ''Synth.missing'') (allItems roundingLoader) = None
   \<and> getRelatedItems roundingLoader ''Synth.missing'' 5 = []"
proof -
  have a1: "find (\<lambda>i. item_id i = normalizeQuery ''Synth.playNote'') (allItems roundingLoader)
     = Some playNoteItem" by code_simp
  have a2: "item_domain playNoteItem \<noteq> Snippets" by (simp add: playNoteItem_def)
  have a3: "relatedScored roundingLoader (normalizeQuery ''Synth.playNote'') playNoteItem =
       [(''Knob.range'', toDouble (3 / 5)),
        (''Synth.stop'', doubleAdd (toDouble (2 / 5)) (toDouble (2 / 10)))]" by code_simp
  have a4: "toDouble (3 / 5) < doubleAdd (toDouble (2 / 5)) (toDouble (2 / 10))" by code_simp
  have a5: "getRelatedItems roundingLoader ''Synth.playNote'' 1 = [''Synth.stop'']" by code_simp
  have b1: "find (\<lambda>i. item_id i = normalizeQuery ''knob-demo'') (allItems snippetLoader)
       = Some knobDemoItem" by code_simp
  have b2: "rankedByOverlap snippetLoader (normalizeQuery ''knob-demo'') knobDemoItem = []"
    by code_simp
  have b3: "injectedAPIs snippetLoader (normalizeQuery ''knob-demo'') knobDemoItem = [''Synth.addNoteOn'']"
    by code_simp
  have b4: "injectedComponents snippetLoader (normalizeQuery ''knob-demo'') knobDemoItem = [''ScriptSlider'']"
    by code_simp
  have b5: "getRelatedItems snippetLoader ''knob-demo'' 5 = [''Synth.addNoteOn'', ''ScriptSlider'']"
    by code_simp
  have c1: "find (\<lambda>i. item_id i = normalizeQuery ''Synth.missing'') (allItems roundingLoader) = None"
    by code_simp
  note ta = related_items_by_overlap_or_reference
      [where st = roundingLoader and ident = "''Synth.playNote''" and item = playNoteItem
         and limit = 1]
  note tb = related_items_by_overlap_or_reference
      [where st = snippetLoader and ident = "''knob-demo''" and item = knobDemoItem
         and limit = 5]
  note tc = related_items_by_overlap_or_reference
      [where st = roundingLoader and ident = "''Synth.missing''" and item = playNoteItem
         and limit = 5]
  from a1 ta have ra1: "getRelatedItems roundingLoader ''Synth.playNote'' 1
       = map fst (slice0 (sortPairs (relatedScored roundingLoader (normalizeQuery ''Synth.playNote'')
                                       playNoteItem)) 1)"
    and ra2: "playNoteItem \<notin> set (overlapping roundingLoader (normalizeQuery ''Synth.playNote'') playNoteItem)"
    by blast+
  from a1 a2 ta have ra3: "declaredAPIs roundingLoader (normalizeQuery ''Synth.playNote'') playNoteItem = []"
    and ra4: "declaredComponents roundingLoader (normalizeQuery ''Synth.playNote'') playNoteItem = []"
    by blast+
  from b1 tb have rb1: "relatedScored snippetLoader (normalizeQuery ''knob-demo'') knobDemoItem =
       rankedByOverlap snippetLoader (normalizeQuery ''knob-demo'') knobDemoItem
       @ map (\<lambda>ref. (ref, toDouble (9 / 10)))
           (injectedAPIs snippetLoader (normalizeQuery ''knob-demo'') knobDemoItem)
       @ map (\<lambda>ref. (ref, toDouble (85 / 100)))
           (injectedComponents snippetLoader (normalizeQuery ''knob-demo'') knobDemoItem)"
    and rb2: "getRelatedItems snippetLoader ''knob-demo'' 5
       = map fst (slice0 (sortPairs (relatedScored snippetLoader (normalizeQuery ''knob-demo'')
                                       knobDemoItem)) 5)"
    by blast+
  from c1 tc have rc: "getRelatedItems roundingLoader ''Synth.missing'' 5 = []" by blast
  from a1 a2 a3 a4 a5 ra1 ra2 ra3 ra4 b1 b2 b3 b4 rb1 rb2 b5 c1 rc show ?thesis by (intro conjI)
qed

theorem related_items_include_disjoint_reference:
  "find (\<lambda>i. item_id i = normalizeQuery ''knob-demo'') (allItems snippetLoader) = Some knobDemoItem
   \<and> find (\<lambda>i. item_id i = ''synth.addnoteon'') (allItems snippetLoader) = Some addNoteOnItem
   \<and> item_name addNoteOnItem = ''Synth.addNoteOn''
   \<and> overlap knobDemoItem addNoteOnItem = 0
   \<and> getRelatedItems snippetLoader ''knob-demo'' 5 = [''Synth.addNoteOn'', ''ScriptSlider'']"
  by code_simp

end
